theory Spec2Isabelle
  imports Complex_Main "HOL-Library.AList" "HOL-Library.Sublist"
begin

section \<open>Data model of \<open>expense.py\<close>\<close>

text \<open>
  Amounts, rates, limits and thresholds are Python floats in the source; they are modelled
  as real numbers.  The arithmetic of the conversion, of the budget and of the monthly
  trend is written exactly, and the theorems about them are about the arithmetic the code
  writes down, not about binary rounding; the spending breakdown, whose statements depend
  on the rounding, takes the float addition as a parameter.  Every \<open>raise\<close> of the source (and the implicit
  \<open>ZeroDivisionError\<close>, \<open>KeyError\<close> and \<open>ValueError\<close> of the Python operations it
  uses) is a value of type \<open>error\<close>.
\<close>

datatype ExpenseCategory =
  FOOD | TRANSPORTATION | HOUSING | ENTERTAINMENT | UTILITIES | HEALTH
  | EDUCATION | SHOPPING | INVESTMENT | TRAVEL | OTHER

text \<open>Iteration order of \<open>for category in ExpenseCategory\<close>: the order of definition.\<close>

definition all_categories :: "ExpenseCategory list" where
  "all_categories =
     [FOOD, TRANSPORTATION, HOUSING, ENTERTAINMENT, UTILITIES, HEALTH,
      EDUCATION, SHOPPING, INVESTMENT, TRAVEL, OTHER]"

datatype Currency = INR | USD | EUR | GBP | JPY | CAD | AUD | SGD

text \<open>\<open>Currency.name\<close>: the member's identifier, the key used in the rate table.\<close>

fun currency_name :: "Currency \<Rightarrow> string" where
  "currency_name INR = ''INR''"
| "currency_name USD = ''USD''"
| "currency_name EUR = ''EUR''"
| "currency_name GBP = ''GBP''"
| "currency_name JPY = ''JPY''"
| "currency_name CAD = ''CAD''"
| "currency_name AUD = ''AUD''"
| "currency_name SGD = ''SGD''"

datatype error =
  UnsupportedConversion string string
    \<comment> \<open>\<open>ValueError("Unsupported currency conversion: {from_code} to {to_code}")\<close>\<close>
  | ZeroDivisionError
    \<comment> \<open>float division by a rate that is \<open>0.0\<close>\<close>
  | DateOutOfRange
    \<comment> \<open>the \<open>ValueError\<close> of \<open>datetime.date(y, m, d)\<close>\<close>
  | EmptySequence
    \<comment> \<open>the \<open>ValueError\<close> of \<open>min()\<close> and \<open>max()\<close> on an empty ledger\<close>
  | KeyError
    \<comment> \<open>subscript of a dict with a key it does not hold\<close>

text \<open>
  \<open>CurrencyConverter._rates\<close>: a dict from currency code to the rate relative to INR.  It
  is replaced as a whole by \<open>load_rates\<close> and \<open>update_rates\<close> with whatever the cache
  file or the rate service delivers, so the type assumes nothing about its keys or values.
  In the data model every entry is a positive real, as in the built-in table below; a
  statement that needs this says so.
\<close>

type_synonym rates = "string \<rightharpoonup> real"

definition default_rates :: rates where
  "default_rates =
     [''INR'' \<mapsto> 1, ''USD'' \<mapsto> 12 / 1000, ''EUR'' \<mapsto> 11 / 1000, ''GBP'' \<mapsto> 95 / 10000,
      ''JPY'' \<mapsto> 178 / 100, ''CAD'' \<mapsto> 16 / 1000, ''AUD'' \<mapsto> 18 / 1000,
      ''SGD'' \<mapsto> 16 / 1000]"

section \<open>\<open>CurrencyConverter.convert\<close>\<close>

text \<open>
  The early return for equal currencies comes first; then the membership test on both
  codes; then the division by the source rate, which raises when that rate is zero, and
  the multiplication by the target rate.
\<close>

definition convert :: "rates \<Rightarrow> real \<Rightarrow> Currency \<Rightarrow> Currency \<Rightarrow> error + real" where
  "convert rates amount from_currency to_currency =
     (if from_currency = to_currency then Inr amount
      else
        let from_code = currency_name from_currency;
            to_code = currency_name to_currency
        in case (rates from_code, rates to_code) of
             (Some rate_from, Some rate_to) \<Rightarrow>
               if rate_from = 0 then Inl ZeroDivisionError
               else Inr (amount / rate_from * rate_to)
           | _ \<Rightarrow> Inl (UnsupportedConversion from_code to_code))"

section \<open>\<open>Budget\<close>\<close>

record Budget =
  budget_category :: ExpenseCategory
  monthly_limit :: real
  budget_currency :: Currency
  current_spending :: real
  alert_threshold :: real
  alerts_triggered :: bool

text \<open>\<open>Budget.__init__\<close>: nothing spent, no alert raised yet.\<close>

definition Budget_init :: "ExpenseCategory \<Rightarrow> real \<Rightarrow> Currency \<Rightarrow> real \<Rightarrow> Budget" where
  "Budget_init cat limit cur threshold =
     \<lparr>budget_category = cat, monthly_limit = limit, budget_currency = cur,
      current_spending = 0, alert_threshold = threshold, alerts_triggered = False\<rparr>"

definition remaining_budget :: "Budget \<Rightarrow> real" where
  "remaining_budget self = max 0 (monthly_limit self - current_spending self)"

definition percentage_used :: "Budget \<Rightarrow> real" where
  "percentage_used self =
     (if monthly_limit self \<noteq> 0 then current_spending self / monthly_limit self * 100
      else 0)"

text \<open>
  The alert that \<open>add_spending\<close> prints: the category, the percentage used and the
  remaining budget, all read after the spend has been added.
\<close>

record alert =
  alert_category :: ExpenseCategory
  alert_percentage :: real
  alert_remaining :: real

text \<open>
  \<open>Budget.add_spending\<close> mutates the budget and may print an alert; the model returns the
  budget after the call together with either the error raised or the alert printed, if
  any.  The conversion is the first statement, so a call that raises leaves the budget as
  it was.
\<close>

definition add_spending ::
  "rates \<Rightarrow> Budget \<Rightarrow> real \<Rightarrow> Currency \<Rightarrow> Budget \<times> (error + alert option)" where
  "add_spending rates self amount expense_currency =
     (case convert rates amount expense_currency (budget_currency self) of
        Inl e \<Rightarrow> (self, Inl e)
      | Inr converted_amount \<Rightarrow>
          let self1 = self\<lparr>current_spending := current_spending self + converted_amount\<rparr>
          in if \<not> alerts_triggered self1 \<and> percentage_used self1 \<ge> alert_threshold self1
             then
               let self2 = self1\<lparr>alerts_triggered := True\<rparr>
               in (self2,
                   Inr (Some \<lparr>alert_category = budget_category self2,
                              alert_percentage = percentage_used self2,
                              alert_remaining = remaining_budget self2\<rparr>))
             else (self1, Inr None))"

text \<open>
  A caller makes successive \<open>add_spending\<close> calls on one budget object.  Each call comes
  with the rate table current at that moment (the table can be refreshed between calls),
  an amount and the currency of the expense.  A call that raises is survived by the
  budget, which later calls still use (the menu loop catches every exception).
\<close>

type_synonym spending_call = "rates \<times> real \<times> Currency"

fun budget_after :: "Budget \<Rightarrow> spending_call list \<Rightarrow> Budget" where
  "budget_after self [] = self"
| "budget_after self ((rates, amount, cur) # calls) =
     budget_after (fst (add_spending rates self amount cur)) calls"

text \<open>The budget before the first call and after each call, in order.\<close>

fun budget_states :: "Budget \<Rightarrow> spending_call list \<Rightarrow> Budget list" where
  "budget_states self [] = [self]"
| "budget_states self ((rates, amount, cur) # calls) =
     self # budget_states (fst (add_spending rates self amount cur)) calls"

text \<open>What each call of the sequence raised or printed.\<close>

fun outcomes :: "Budget \<Rightarrow> spending_call list \<Rightarrow> (error + alert option) list" where
  "outcomes self [] = []"
| "outcomes self ((rates, amount, cur) # calls) =
     snd (add_spending rates self amount cur)
       # outcomes (fst (add_spending rates self amount cur)) calls"

fun emitted :: "error + alert option \<Rightarrow> bool" where
  "emitted (Inr (Some a)) = True"
| "emitted (Inr None) = False"
| "emitted (Inl e) = False"

fun returned :: "error + 'a \<Rightarrow> bool" where
  "returned (Inr v) = True"
| "returned (Inl e) = False"

text \<open>The converted amounts of the calls of a sequence whose conversion succeeds.\<close>

fun converted_amounts :: "Currency \<Rightarrow> spending_call list \<Rightarrow> real list" where
  "converted_amounts target [] = []"
| "converted_amounts target ((rates, amount, cur) # calls) =
     (case convert rates amount cur target of
        Inl e \<Rightarrow> converted_amounts target calls
      | Inr v \<Rightarrow> v # converted_amounts target calls)"

text \<open>
  A call whose converted amount, when the conversion succeeds, is not negative.
\<close>

fun nonneg_call :: "Currency \<Rightarrow> spending_call \<Rightarrow> bool" where
  "nonneg_call target (rates, amount, cur) =
     (case convert rates amount cur target of Inl e \<Rightarrow> True | Inr v \<Rightarrow> 0 \<le> v)"

text \<open>The rate of a currency, where the table has one, is strictly positive.\<close>

definition positive_rate :: "rates \<Rightarrow> Currency \<Rightarrow> bool" where
  "positive_rate rates cur =
     (case rates (currency_name cur) of None \<Rightarrow> True | Some r \<Rightarrow> 0 < r)"

section \<open>Dates\<close>

text \<open>
  \<open>datetime.date\<close>: a year, a month and a day, ordered lexicographically.  The
  constructor raises \<open>ValueError\<close> outside the years 1 to 9999, the months 1 to 12 and
  the days of the month.
\<close>

record date =
  year :: int
  month :: int
  day :: int

definition date_less :: "date \<Rightarrow> date \<Rightarrow> bool" where
  "date_less a b =
     (year a < year b
      \<or> (year a = year b
          \<and> (month a < month b \<or> (month a = month b \<and> day a < day b))))"

definition date_le :: "date \<Rightarrow> date \<Rightarrow> bool" where
  "date_le a b = (\<not> date_less b a)"

definition is_leap :: "int \<Rightarrow> bool" where
  "is_leap y = (y mod 4 = 0 \<and> (y mod 100 \<noteq> 0 \<or> y mod 400 = 0))"

definition days_in_month :: "int \<Rightarrow> int \<Rightarrow> int" where
  "days_in_month y m =
     (if m = 2 then (if is_leap y then 29 else 28)
      else if m = 4 \<or> m = 6 \<or> m = 9 \<or> m = 11 then 30
      else 31)"

definition date_new :: "int \<Rightarrow> int \<Rightarrow> int \<Rightarrow> error + date" where
  "date_new y m d =
     (if 1 \<le> y \<and> y \<le> 9999 \<and> 1 \<le> m \<and> m \<le> 12 \<and> 1 \<le> d \<and> d \<le> days_in_month y m
      then Inr \<lparr>year = y, month = m, day = d\<rparr>
      else Inl DateOutOfRange)"

text \<open>The values a \<open>datetime.date\<close> object can have.\<close>

definition valid_date :: "date \<Rightarrow> bool" where
  "valid_date d = (date_new (year d) (month d) (day d) = Inr d)"

text \<open>\<open>min(...)\<close> and \<open>max(...)\<close> over the dates of the ledger.\<close>

definition min_date :: "date list \<Rightarrow> error + date" where
  "min_date ds =
     (case ds of
        [] \<Rightarrow> Inl EmptySequence
      | d # rest \<Rightarrow> Inr (fold (\<lambda>x m. if date_less x m then x else m) rest d))"

definition max_date :: "date list \<Rightarrow> error + date" where
  "max_date ds =
     (case ds of
        [] \<Rightarrow> Inl EmptySequence
      | d # rest \<Rightarrow> Inr (fold (\<lambda>x m. if date_less m x then x else m) rest d))"

section \<open>\<open>Expense\<close>, \<open>ExpenseTag\<close> and \<open>User\<close>\<close>

record ExpenseTag =
  tag_name :: string
  tag_category :: ExpenseCategory

record Expense =
  amount :: real
  category :: ExpenseCategory
  description :: string
  date :: date
  currency :: Currency
  is_recurring :: bool
  recurring_period_days :: int
  tags :: "string list"
  payment_method :: string

definition convert_to :: "rates \<Rightarrow> Expense \<Rightarrow> Currency \<Rightarrow> error + real" where
  "convert_to rates self target_currency =
     convert rates (amount self) (currency self) target_currency"

text \<open>
  \<open>User.tags\<close> is a dict from tag name to \<open>ExpenseTag\<close>.  Its iteration order (the
  order of first insertion) decides the description fallback, so it is an association list
  updated the way a dict is: an existing key keeps its place, a new key goes to the end.
  \<open>User.budgets\<close> is only looked up by key and is a map.
\<close>

type_synonym tag_registry = "(string \<times> ExpenseTag) list"

record User =
  user_name :: string
  default_currency :: Currency
  expenses :: "Expense list"
  budgets :: "ExpenseCategory \<rightharpoonup> Budget"
  user_tags :: tag_registry
  payment_methods :: "string list"

definition default_tags :: "ExpenseTag list" where
  "default_tags =
     [\<lparr>tag_name = ''groceries'', tag_category = FOOD\<rparr>,
      \<lparr>tag_name = ''dining'', tag_category = FOOD\<rparr>,
      \<lparr>tag_name = ''fuel'', tag_category = TRANSPORTATION\<rparr>,
      \<lparr>tag_name = ''rent'', tag_category = HOUSING\<rparr>,
      \<lparr>tag_name = ''movie'', tag_category = ENTERTAINMENT\<rparr>,
      \<lparr>tag_name = ''electricity'', tag_category = UTILITIES\<rparr>,
      \<lparr>tag_name = ''doctor'', tag_category = HEALTH\<rparr>,
      \<lparr>tag_name = ''books'', tag_category = EDUCATION\<rparr>,
      \<lparr>tag_name = ''shopping'', tag_category = SHOPPING\<rparr>,
      \<lparr>tag_name = ''mutual fund'', tag_category = INVESTMENT\<rparr>,
      \<lparr>tag_name = ''flight'', tag_category = TRAVEL\<rparr>]"

definition initialize_default_tags :: "User \<Rightarrow> User" where
  "initialize_default_tags self =
     self\<lparr>user_tags :=
       fold (\<lambda>tag reg. AList.update (tag_name tag) tag reg) default_tags (user_tags self)\<rparr>"

definition User_init :: "string \<Rightarrow> Currency \<Rightarrow> User" where
  "User_init name default_cur =
     initialize_default_tags
       \<lparr>user_name = name, default_currency = default_cur, expenses = [],
        budgets = Map.empty, user_tags = [],
        payment_methods =
          [''Cash'', ''Credit Card'', ''Debit Card'', ''UPI'', ''Bank Transfer'', ''Wallet'']\<rparr>"

definition set_budget ::
  "User \<Rightarrow> ExpenseCategory \<Rightarrow> real \<Rightarrow> Currency option \<Rightarrow> real \<Rightarrow> User" where
  "set_budget self cat limit cur threshold =
     (let cur' = (case cur of None \<Rightarrow> default_currency self | Some c \<Rightarrow> c)
      in self\<lparr>budgets := (budgets self)(cat \<mapsto> Budget_init cat limit cur' threshold)\<rparr>)"

definition add_tag :: "User \<Rightarrow> string \<Rightarrow> ExpenseCategory \<Rightarrow> User" where
  "add_tag self name cat =
     self\<lparr>user_tags :=
       AList.update name \<lparr>tag_name = name, tag_category = cat\<rparr> (user_tags self)\<rparr>"

section \<open>Categorisation\<close>

text \<open>
  \<open>str.lower()\<close> on ASCII text: the letters A to Z move to a to z, every other character
  stays.  (Characters are bytes here; the lowering of letters outside ASCII is not
  modelled.)
\<close>

definition lower_char :: "char \<Rightarrow> char" where
  "lower_char c =
     (if (65::nat) \<le> of_char c \<and> of_char c \<le> (90::nat)
      then char_of (of_char c + (32::nat)) else c)"

definition lower :: "string \<Rightarrow> string" where
  "lower s = map lower_char s"

text \<open>
  \<open>_categorize_from_tags\<close>: the first tag of the list that is a key of the registry
  decides; \<open>None\<close> when no tag is one.
\<close>

fun categorize_from_tags :: "User \<Rightarrow> string list \<Rightarrow> ExpenseCategory option" where
  "categorize_from_tags self [] = None"
| "categorize_from_tags self (tag # rest) =
     (case map_of (user_tags self) tag of
        Some t \<Rightarrow> Some (tag_category t)
      | None \<Rightarrow> categorize_from_tags self rest)"

text \<open>
  \<open>_categorize_from_description\<close>: the description is lowered, the registry is walked in
  its iteration order, and the first entry whose key occurs in the lowered description
  (Python's \<open>in\<close> on strings: a contiguous substring) decides.  The key itself is compared
  as it is stored.
\<close>

fun scan_registry :: "tag_registry \<Rightarrow> string \<Rightarrow> ExpenseCategory" where
  "scan_registry [] description_lower = OTHER"
| "scan_registry ((name, tag) # rest) description_lower =
     (if sublist name description_lower then tag_category tag
      else scan_registry rest description_lower)"

definition categorize_from_description :: "User \<Rightarrow> string \<Rightarrow> ExpenseCategory" where
  "categorize_from_description self descr =
     (let description_lower = lower descr
      in scan_registry (user_tags self) description_lower)"

text \<open>
  The resolution of \<open>add_expense\<close>: an explicit category is kept; otherwise
  \<open>_categorize_from_tags(tags) or _categorize_from_description(description)\<close>, where
  \<open>or\<close> takes its right operand only when the left one is \<open>None\<close> (every member
  of the enumeration is true).
\<close>

definition resolve_category ::
  "User \<Rightarrow> ExpenseCategory option \<Rightarrow> string list \<Rightarrow> string \<Rightarrow> ExpenseCategory" where
  "resolve_category self category_opt tag_list descr =
     (case category_opt of
        Some c \<Rightarrow> c
      | None \<Rightarrow>
          (case categorize_from_tags self tag_list of
             Some c \<Rightarrow> c
           | None \<Rightarrow> categorize_from_description self descr))"

section \<open>\<open>User.add_expense\<close>\<close>

text \<open>
  The defaults are filled in, the category is resolved, the expense is appended to the
  ledger and, when the category has a budget, handed to \<open>add_spending\<close>.  The append
  precedes the budget update, so when the conversion inside \<open>add_spending\<close> raises, the
  expense is already in the ledger: the model returns the user after the call together
  with the error, or with the expense and the alert printed, if any.  \<open>today\<close> stands
  for \<open>datetime.date.today()\<close>.
\<close>

definition add_expense ::
  "rates \<Rightarrow> date \<Rightarrow> User \<Rightarrow> real \<Rightarrow> string \<Rightarrow> date option \<Rightarrow> ExpenseCategory option
     \<Rightarrow> Currency option \<Rightarrow> bool \<Rightarrow> int \<Rightarrow> string list option \<Rightarrow> string option
     \<Rightarrow> User \<times> (error + Expense \<times> alert option)" where
  "add_expense rates today self amt descr date_opt category_opt currency_opt
     recurring period_days tags_opt payment_method_opt =
     (let date' = (case date_opt of None \<Rightarrow> today | Some d \<Rightarrow> d);
          currency' = (case currency_opt of None \<Rightarrow> default_currency self | Some c \<Rightarrow> c);
          payment_method' = (case payment_method_opt of None \<Rightarrow> ''Cash'' | Some p \<Rightarrow> p);
          tags' = (case tags_opt of None \<Rightarrow> [] | Some ts \<Rightarrow> ts);
          category' = resolve_category self category_opt tags' descr;
          expense =
            \<lparr>amount = amt, category = category', description = descr, date = date',
             currency = currency', is_recurring = recurring,
             recurring_period_days = period_days, tags = tags',
             payment_method = payment_method'\<rparr>;
          self1 = self\<lparr>expenses := expenses self @ [expense]\<rparr>
      in case budgets self1 category' of
           None \<Rightarrow> (self1, Inr (expense, None))
         | Some budget \<Rightarrow>
             (case add_spending rates budget amt currency' of
                (budget', Inl e) \<Rightarrow> (self1, Inl e)
              | (budget', Inr al) \<Rightarrow>
                  (self1\<lparr>budgets := (budgets self1)(category' \<mapsto> budget')\<rparr>,
                   Inr (expense, al))))"

section \<open>\<open>User.get_spending_breakdown\<close>\<close>

text \<open>
  \<open>if target_currency is None: target_currency = self.default_currency\<close>, the first
  statement of every report function.
\<close>

definition target_or_default :: "User \<Rightarrow> Currency option \<Rightarrow> Currency" where
  "target_or_default self target_currency =
     (case target_currency of None \<Rightarrow> default_currency self | Some c \<Rightarrow> c)"

text \<open>
  The amount of an expense in the target currency, as the aggregation loops compute it.
\<close>

definition amount_in :: "rates \<Rightarrow> Currency \<Rightarrow> Expense \<Rightarrow> error + real" where
  "amount_in rates target_currency expense =
     (if currency expense = target_currency then Inr (amount expense)
      else convert rates (amount expense) (currency expense) target_currency)"

text \<open>
  Python adds floats: IEEE 754 binary64 addition, which rounds.  The aggregation takes the
  addition as a parameter \<open>fadd\<close>, so that what is proved of it holds whatever the
  rounding is.  For concrete runs, \<open>double_add\<close> is that addition on finite values: the
  exact sum rounded to the nearest number with a significand of 53 bits, a tie going to
  the even significand; the exponent is that of the binade of the sum and not below
  -1022.  (Overflow to infinity is not modelled.)
\<close>

definition double_exponent :: "real \<Rightarrow> int" where
  "double_exponent x = max \<lfloor>log 2 \<bar>x\<bar>\<rfloor> (- 1022)"

definition round_double :: "real \<Rightarrow> real" where
  "round_double x =
     (if x = 0 then 0
      else
        let ulp = 2 powi (double_exponent x - 52);
            q = x / ulp;
            n = \<lfloor>q\<rfloor>
        in (if q - of_int n < 1 / 2 \<or> (q - of_int n = 1 / 2 \<and> even n)
            then of_int n else of_int n + 1) * ulp)"

definition double_add :: "real \<Rightarrow> real \<Rightarrow> real" where
  "double_add x y = round_double (x + y)"

text \<open>The doubles that the literals \<open>0.1\<close> and \<open>0.4\<close> denote.\<close>

definition double_0_1 :: real where
  "double_0_1 = 3602879701896397 / 2 ^ 55"

definition double_0_4 :: real where
  "double_0_4 = 3602879701896397 / 2 ^ 53"

text \<open>
  The loop over the ledger.  \<open>breakdown\<close> holds a value for every category (the dict is
  created with all of them at 0.0), so it is a total function.  An expense before the
  start date or after the end date is skipped; a conversion that raises ends the call;
  otherwise \<open>breakdown[expense.category] += amount\<close> adds the amount to the bucket of
  the category with the float addition.
\<close>

fun breakdown_loop ::
  "(real \<Rightarrow> real \<Rightarrow> real) \<Rightarrow> rates \<Rightarrow> Currency \<Rightarrow> date option \<Rightarrow> date option
     \<Rightarrow> Expense list \<Rightarrow> (ExpenseCategory \<Rightarrow> real) \<Rightarrow> error + (ExpenseCategory \<Rightarrow> real)" where
  "breakdown_loop fadd rates target start_date end_date [] breakdown = Inr breakdown"
| "breakdown_loop fadd rates target start_date end_date (expense # rest) breakdown =
     (if (case start_date of None \<Rightarrow> False | Some s \<Rightarrow> date_less (date expense) s)
      then breakdown_loop fadd rates target start_date end_date rest breakdown
      else if (case end_date of None \<Rightarrow> False | Some e \<Rightarrow> date_less e (date expense))
      then breakdown_loop fadd rates target start_date end_date rest breakdown
      else
        (case amount_in rates target expense of
           Inl e \<Rightarrow> Inl e
         | Inr a \<Rightarrow>
             breakdown_loop fadd rates target start_date end_date rest
               (breakdown(category expense := fadd (breakdown (category expense)) a))))"

text \<open>
  The result dict keeps the categories whose total is strictly positive, in the order of
  the enumeration; it is the list of its items.
\<close>

definition get_spending_breakdown ::
  "(real \<Rightarrow> real \<Rightarrow> real) \<Rightarrow> rates \<Rightarrow> User \<Rightarrow> Currency option \<Rightarrow> date option
     \<Rightarrow> date option \<Rightarrow> error + (ExpenseCategory \<times> real) list" where
  "get_spending_breakdown fadd rates self target_currency start_date end_date =
     (let target = target_or_default self target_currency
      in case breakdown_loop fadd rates target start_date end_date (expenses self) (\<lambda>k. 0) of
           Inl e \<Rightarrow> Inl e
         | Inr breakdown \<Rightarrow>
             Inr (filter (\<lambda>(k, v). v > 0) (map (\<lambda>k. (k, breakdown k)) all_categories)))"

text \<open>
  For the statements about the breakdown: whether an expense lies within the optional
  inclusive bounds, and the amounts, in the target currency, of the expenses of a list
  that convert.
\<close>

definition in_period :: "date option \<Rightarrow> date option \<Rightarrow> Expense \<Rightarrow> bool" where
  "in_period start_date end_date expense =
     ((case start_date of None \<Rightarrow> True | Some s \<Rightarrow> date_le s (date expense))
      \<and> (case end_date of None \<Rightarrow> True | Some e \<Rightarrow> date_le (date expense) e))"

fun amounts_in :: "rates \<Rightarrow> Currency \<Rightarrow> Expense list \<Rightarrow> real list" where
  "amounts_in rates target [] = []"
| "amounts_in rates target (expense # rest) =
     (case amount_in rates target expense of
        Inl e \<Rightarrow> amounts_in rates target rest
      | Inr a \<Rightarrow> a # amounts_in rates target rest)"

text \<open>
  The exact total, in the target currency, of the expenses of a category within the
  bounds.
\<close>

definition category_total ::
  "rates \<Rightarrow> Currency \<Rightarrow> date option \<Rightarrow> date option \<Rightarrow> Expense list \<Rightarrow> ExpenseCategory
     \<Rightarrow> real" where
  "category_total rates target start_date end_date xs k =
     sum_list (amounts_in rates target
       (filter (\<lambda>x. in_period start_date end_date x \<and> category x = k) xs))"

text \<open>
  The value that the loop accumulates for a category: the amounts of the expenses of the
  category within the bounds, added one after the other, in ledger order, to 0.
\<close>

definition accumulated ::
  "(real \<Rightarrow> real \<Rightarrow> real) \<Rightarrow> rates \<Rightarrow> Currency \<Rightarrow> date option \<Rightarrow> date option
     \<Rightarrow> Expense list \<Rightarrow> ExpenseCategory \<Rightarrow> real" where
  "accumulated fadd rates target start_date end_date xs k =
     foldl fadd 0 (amounts_in rates target
       (filter (\<lambda>x. in_period start_date end_date x \<and> category x = k) xs))"

section \<open>\<open>ReportGenerator.generate_spending_trend\<close>\<close>

text \<open>
  \<open>monthly_data\<close>: a dict from (year, month) to a dict from category to amount.  The inner
  dict holds every category, so it is a total function; the outer one is the list of its
  items in insertion order.
\<close>

type_synonym monthly_data = "((int \<times> int) \<times> (ExpenseCategory \<Rightarrow> real)) list"

text \<open>
  The \<open>while\<close> loop that creates the buckets.  It starts at the start date itself, stores
  an all-zero bucket under the (year, month) of the current date and moves on to the first
  day of the next month, constructed by \<open>datetime.date\<close>, which raises when the year
  leaves the supported range.
\<close>

function month_buckets :: "date \<Rightarrow> date \<Rightarrow> monthly_data \<Rightarrow> error + monthly_data" where
  "month_buckets current_date end_date monthly_data =
     (if date_le current_date end_date then
        (case (if month current_date = 12 then date_new (year current_date + 1) 1 1
               else date_new (year current_date) (month current_date + 1) 1) of
           Inl e \<Rightarrow> Inl e
         | Inr next_date \<Rightarrow>
             month_buckets next_date end_date
               (AList.update (year current_date, month current_date) (\<lambda>k. 0) monthly_data))
      else Inr monthly_data)"
  by pat_completeness auto
termination
  by (relation "measure (\<lambda>(c, e, md). nat (120013 - (12 * year c + month c)))")
    (auto simp: date_new_def split: if_splits)

text \<open>
  The loop over the ledger: an expense outside the range is skipped; otherwise its amount
  in the target currency is added to its category in the bucket of its (year, month).  A
  conversion that raises, or a missing bucket, ends the call.
\<close>

fun trend_loop ::
  "rates \<Rightarrow> Currency \<Rightarrow> date \<Rightarrow> date \<Rightarrow> Expense list \<Rightarrow> monthly_data
     \<Rightarrow> error + monthly_data" where
  "trend_loop rates target start_date end_date [] monthly_data = Inr monthly_data"
| "trend_loop rates target start_date end_date (expense # rest) monthly_data =
     (if date_less (date expense) start_date \<or> date_less end_date (date expense)
      then trend_loop rates target start_date end_date rest monthly_data
      else
        let year_month = (year (date expense), month (date expense))
        in case amount_in rates target expense of
             Inl e \<Rightarrow> Inl e
           | Inr a \<Rightarrow>
               (case map_of monthly_data year_month of
                  None \<Rightarrow> Inl KeyError
                | Some bucket \<Rightarrow>
                    trend_loop rates target start_date end_date rest
                      (AList.update year_month
                         (bucket(category expense := bucket (category expense) + a))
                         monthly_data)))"

text \<open>
  \<open>generate_spending_trend\<close> up to the point where plotting starts: the value of
  \<open>monthly_data\<close> after the two loops.  A missing start or end date is taken from the
  ledger, which raises when the ledger is empty.
\<close>

definition generate_spending_trend ::
  "rates \<Rightarrow> User \<Rightarrow> Currency option \<Rightarrow> date option \<Rightarrow> date option
     \<Rightarrow> error + monthly_data" where
  "generate_spending_trend rates user target_currency start_date end_date =
     (let target = target_or_default user target_currency
      in case (case start_date of
                 None \<Rightarrow> min_date (map date (expenses user)) | Some s \<Rightarrow> Inr s) of
           Inl e \<Rightarrow> Inl e
         | Inr start \<Rightarrow>
             (case (case end_date of
                      None \<Rightarrow> max_date (map date (expenses user)) | Some e \<Rightarrow> Inr e) of
                Inl e \<Rightarrow> Inl e
              | Inr end' \<Rightarrow>
                  (case month_buckets start end' [] of
                     Inl e \<Rightarrow> Inl e
                   | Inr monthly_data \<Rightarrow>
                       trend_loop rates target start end' (expenses user) monthly_data)))"

text \<open>
  For the statements about the trend: the calendar months from the month of one date
  through the month of another, in order, and the total of a category within one month
  and within the range.
\<close>

definition months_between :: "date \<Rightarrow> date \<Rightarrow> (int \<times> int) list" where
  "months_between start_date end_date =
     map (\<lambda>i. (i div 12, i mod 12 + 1))
       [12 * year start_date + month start_date - 1 ..
        12 * year end_date + month end_date - 1]"

definition month_total ::
  "rates \<Rightarrow> Currency \<Rightarrow> date \<Rightarrow> date \<Rightarrow> Expense list \<Rightarrow> int \<times> int \<Rightarrow> ExpenseCategory
     \<Rightarrow> real" where
  "month_total rates target start_date end_date xs ym k =
     sum_list (amounts_in rates target
       (filter (\<lambda>x. in_period (Some start_date) (Some end_date) x
                  \<and> (year (date x), month (date x)) = ym \<and> category x = k) xs))"

section \<open>Conversion\<close>

lemma currency_name_inject: "currency_name a = currency_name b \<longleftrightarrow> a = b"
  by (cases a; cases b) simp_all

text \<open>
  Claim C4: for distinct currencies that both have entries in the rate table, the entries
  being positive as every entry of a rate table of the data model is, \<open>convert\<close> returns
  exactly \<open>amount / rate[from] * rate[to]\<close>; for distinct currencies of which at least
  one has no entry it fails with the unsupported-currency error.
\<close>

theorem convert_through_base:
  "(from_currency \<noteq> to_currency
      \<and> rates (currency_name from_currency) = Some rate_from
      \<and> rates (currency_name to_currency) = Some rate_to
      \<and> 0 < rate_from \<and> 0 < rate_to
    \<longrightarrow> convert rates x from_currency to_currency = Inr (x / rate_from * rate_to))
   \<and> (from_currency \<noteq> to_currency
      \<and> (rates (currency_name from_currency) = None
          \<or> rates (currency_name to_currency) = None)
    \<longrightarrow> convert rates x from_currency to_currency =
          Inl (UnsupportedConversion (currency_name from_currency)
                 (currency_name to_currency)))"
  by (auto simp: convert_def Let_def split: option.splits)

theorem convert_through_base_witness:
  "convert default_rates 120 USD INR = Inr 10000
   \<and> convert (default_rates(''EUR'' := None)) 120 USD EUR =
       Inl (UnsupportedConversion ''USD'' ''EUR'')"
proof -
  have "convert default_rates 120 USD INR = Inr (120 / (12 / 1000) * 1)"
    using convert_through_base [of USD INR default_rates "12 / 1000" 1 120]
    by (simp add: default_rates_def)
  moreover have "convert (default_rates(''EUR'' := None)) 120 USD EUR =
      Inl (UnsupportedConversion ''USD'' ''EUR'')"
    using convert_through_base
      [of USD EUR "default_rates(''EUR'' := None)" 0 0 120]
    by simp
  ultimately show ?thesis by simp
qed

text \<open>
  Claim C5, as stated, at equal currencies: the code absent from the (empty) table, the
  call still returns the amount, because the equality test precedes the table lookup.
\<close>

theorem convert_absent_same_currency_counterexample:
  "Map.empty (currency_name USD) = (None :: real option)
   \<and> convert Map.empty 5 USD USD = Inr 5"
  by (simp add: convert_def)

text \<open>
  Claim C5 (amended): \<open>convert\<close> fails with the unsupported-currency error exactly when the
  two currencies differ and at least one of their codes has no entry in the rate table; for
  equal currencies it never fails, whatever the table holds.
\<close>

theorem convert_unsupported_iff:
  "(\<exists>a b. convert rates x from_currency to_currency = Inl (UnsupportedConversion a b))
   \<longleftrightarrow> from_currency \<noteq> to_currency
       \<and> (rates (currency_name from_currency) = None
          \<or> rates (currency_name to_currency) = None)"
  by (auto simp: convert_def Let_def split: option.splits)

theorem convert_unsupported_iff_witness:
  "(\<exists>a b. convert (default_rates(''GBP'' := None)) 7 GBP JPY =
       Inl (UnsupportedConversion a b))
   \<and> \<not> (\<exists>a b. convert (default_rates(''GBP'' := None)) 7 GBP GBP =
       Inl (UnsupportedConversion a b))"
  using convert_unsupported_iff [of "default_rates(''GBP'' := None)" 7 GBP JPY]
    convert_unsupported_iff [of "default_rates(''GBP'' := None)" 7 GBP GBP]
  by simp

text \<open>
  Claim C6: for every currency, every amount and every rate table, converting from a
  currency to itself returns the amount itself; the table is not consulted and no
  arithmetic is performed.
\<close>

theorem convert_same_currency: "convert rates x c c = Inr x"
  by (simp add: convert_def)

section \<open>Budget alerts\<close>

lemma add_spending_fields:
  "alert_threshold (fst (add_spending rates b a c)) = alert_threshold b"
  "monthly_limit (fst (add_spending rates b a c)) = monthly_limit b"
  "budget_currency (fst (add_spending rates b a c)) = budget_currency b"
  "budget_category (fst (add_spending rates b a c)) = budget_category b"
  by (simp_all add: add_spending_def Let_def split: sum.splits)

lemma budget_after_fields:
  "alert_threshold (budget_after b calls) = alert_threshold b"
  "monthly_limit (budget_after b calls) = monthly_limit b"
  "budget_currency (budget_after b calls) = budget_currency b"
  "budget_category (budget_after b calls) = budget_category b"
  by (induction b calls rule: budget_after.induct) (simp_all add: add_spending_fields)

lemma percentage_used_flag:
  "percentage_used (b\<lparr>alerts_triggered := f\<rparr>) = percentage_used b"
  by (simp add: percentage_used_def)

lemma add_spending_emitted_iff:
  "emitted (snd (add_spending rates b a c)) \<longleftrightarrow>
     returned (snd (add_spending rates b a c))
     \<and> alert_threshold b \<le> percentage_used (fst (add_spending rates b a c))
     \<and> \<not> alerts_triggered b"
  by (auto simp: add_spending_def Let_def percentage_used_flag split: sum.splits)

lemma add_spending_triggered:
  "alerts_triggered (fst (add_spending rates b a c)) \<longleftrightarrow>
     alerts_triggered b \<or> emitted (snd (add_spending rates b a c))"
  by (auto simp: add_spending_def Let_def split: sum.splits)

lemma budget_after_triggered:
  "alerts_triggered (budget_after b calls) \<longleftrightarrow>
     alerts_triggered b \<or> list_ex emitted (outcomes b calls)"
  by (induction b calls rule: budget_after.induct) (auto simp: add_spending_triggered)

lemma triggered_no_alert:
  "alerts_triggered b \<Longrightarrow> filter emitted (outcomes b calls) = []"
proof (induction b calls rule: outcomes.induct)
  case (1 self)
  then show ?case by simp
next
  case (2 self rates amt cur calls)
  then show ?case
    by (simp add: add_spending_triggered add_spending_emitted_iff)
qed

lemma at_most_one_alert: "length (filter emitted (outcomes b calls)) \<le> 1"
proof (induction b calls rule: outcomes.induct)
  case (1 self)
  then show ?case by simp
next
  case (2 self rates amt cur calls)
  show ?case
  proof (cases "emitted (snd (add_spending rates self amt cur))")
    case True
    then have "alerts_triggered (fst (add_spending rates self amt cur))"
      by (simp add: add_spending_triggered)
    then show ?thesis using True by (simp add: triggered_no_alert)
  next
    case False
    then show ?thesis using 2 by simp
  qed
qed


text \<open>
  Claim C1: for a budget created by \<open>Budget.__init__\<close> and any history of
  \<open>add_spending\<close> calls on it, the next call prints an alert exactly when its conversion
  succeeds (so that the converted amount is added), the percentage used after the addition
  is at least the threshold, and no earlier call of the history printed an alert.  Hence no
  sequence of calls prints more than one alert.  For a limit of 1000 and a threshold of 80,
  spending 799, then 1, then 700 in the budget's currency prints nothing at 799, one alert
  at 800 (80 percent used, 200 remaining) and nothing on the way to 1500.
\<close>

theorem one_shot_alert:
  "(emitted (snd (add_spending rates
        (budget_after (Budget_init cat limit cur threshold) calls) amt ecur))
    \<longleftrightarrow> returned (convert rates amt ecur cur)
        \<and> threshold \<le> percentage_used (fst (add_spending rates
              (budget_after (Budget_init cat limit cur threshold) calls) amt ecur))
        \<and> \<not> list_ex emitted (outcomes (Budget_init cat limit cur threshold) calls))
   \<and> length (filter emitted (outcomes (Budget_init cat limit cur threshold) calls)) \<le> 1
   \<and> outcomes (Budget_init cat 1000 INR 80) [(r1, 799, INR), (r2, 1, INR), (r3, 700, INR)] =
       [Inr None,
        Inr (Some \<lparr>alert_category = cat, alert_percentage = 80, alert_remaining = 200\<rparr>),
        Inr None]
   \<and> map current_spending
        (budget_states (Budget_init cat 1000 INR 80)
           [(r1, 799, INR), (r2, 1, INR), (r3, 700, INR)]) = [0, 799, 800, 1500]"
proof -
  let ?init = "Budget_init cat limit cur threshold"
  let ?now = "budget_after ?init calls"
  have cur: "budget_currency ?now = cur" and thr: "alert_threshold ?now = threshold"
    by (simp_all add: budget_after_fields Budget_init_def)
  have ret: "returned (snd (add_spending rates ?now amt ecur)) \<longleftrightarrow>
      returned (convert rates amt ecur cur)"
    by (simp add: add_spending_def Let_def cur split: sum.splits)
  have "\<not> alerts_triggered ?init"
    by (simp add: Budget_init_def)
  then have trig: "alerts_triggered ?now \<longleftrightarrow> list_ex emitted (outcomes ?init calls)"
    using budget_after_triggered [of ?init calls] by blast
  have first: "emitted (snd (add_spending rates ?now amt ecur)) \<longleftrightarrow>
      returned (convert rates amt ecur cur)
      \<and> threshold \<le> percentage_used (fst (add_spending rates ?now amt ecur))
      \<and> \<not> list_ex emitted (outcomes ?init calls)"
    using add_spending_emitted_iff [of rates ?now amt ecur] by (simp only: ret thr trig)
  have second: "length (filter emitted (outcomes ?init calls)) \<le> 1"
    by (rule at_most_one_alert)
  have third: "outcomes (Budget_init cat 1000 INR 80)
       [(r1, 799, INR), (r2, 1, INR), (r3, 700, INR)] =
       [Inr None,
        Inr (Some \<lparr>alert_category = cat, alert_percentage = 80, alert_remaining = 200\<rparr>),
        Inr None]"
    by (simp add: add_spending_def Budget_init_def convert_def percentage_used_def
        remaining_budget_def Let_def)
  have fourth: "map current_spending
        (budget_states (Budget_init cat 1000 INR 80)
           [(r1, 799, INR), (r2, 1, INR), (r3, 700, INR)]) = [0, 799, 800, 1500]"
    by (simp add: add_spending_def Budget_init_def convert_def percentage_used_def Let_def)
  from first second third fourth show ?thesis by blast
qed

theorem one_shot_alert_witness:
  "emitted (snd (add_spending default_rates
      (budget_after (Budget_init FOOD 2000 INR 50) [(default_rates, 500, INR)]) 50 USD))
   \<and> \<not> emitted (snd (add_spending default_rates
      (budget_after (Budget_init FOOD 2000 INR 50)
         [(default_rates, 500, INR), (default_rates, 600, INR)]) 900 INR))"
proof -
  have a: "returned (convert default_rates 50 USD INR)"
    by (simp add: convert_def default_rates_def)
  have b: "(50::real) \<le> percentage_used (fst (add_spending default_rates
      (budget_after (Budget_init FOOD 2000 INR 50) [(default_rates, 500, INR)]) 50 USD))"
    by (simp add: add_spending_def Budget_init_def convert_def percentage_used_def Let_def
        default_rates_def)
  have c: "\<not> list_ex emitted
      (outcomes (Budget_init FOOD 2000 INR 50) [(default_rates, 500, INR)])"
    by (simp add: add_spending_def Budget_init_def convert_def percentage_used_def Let_def)
  have d: "list_ex emitted (outcomes (Budget_init FOOD 2000 INR 50)
      [(default_rates, 500, INR), (default_rates, 600, INR)])"
    by (simp add: add_spending_def Budget_init_def convert_def percentage_used_def Let_def)
  show ?thesis
    using a b c d
      one_shot_alert [of default_rates FOOD 2000 INR 50 "[(default_rates, 500, INR)]" 50 USD]
      one_shot_alert [of default_rates FOOD 2000 INR 50
        "[(default_rates, 500, INR), (default_rates, 600, INR)]" 900 INR]
    by blast
qed

section \<open>Running spend\<close>

lemma add_spending_current_spending:
  "current_spending (fst (add_spending rates b a c)) =
     (case convert rates a c (budget_currency b) of
        Inl e \<Rightarrow> current_spending b
      | Inr v \<Rightarrow> current_spending b + v)"
  by (simp add: add_spending_def Let_def split: sum.splits)

lemma budget_after_current_spending:
  "current_spending (budget_after b calls) =
     current_spending b + sum_list (converted_amounts (budget_currency b) calls)"
  by (induction b calls rule: budget_after.induct)
    (simp_all add: add_spending_current_spending add_spending_fields split: sum.splits)

lemma budget_states_limit:
  "s \<in> set (budget_states b calls) \<Longrightarrow> monthly_limit s = monthly_limit b"
  by (induction b calls rule: budget_states.induct) (auto simp: add_spending_fields)

lemma add_spending_mono:
  "nonneg_call (budget_currency b) (rates, a, c) \<Longrightarrow>
     current_spending b \<le> current_spending (fst (add_spending rates b a c))"
  by (simp add: add_spending_current_spending split: sum.splits)

lemma budget_states_lower:
  "\<forall>call \<in> set calls. nonneg_call (budget_currency b) call \<Longrightarrow>
     s \<in> set (budget_states b calls) \<Longrightarrow> current_spending b \<le> current_spending s"
proof (induction b calls rule: budget_states.induct)
  case (1 self)
  then show ?case by simp
next
  case (2 self rates amt cur calls)
  let ?n = "fst (add_spending rates self amt cur)"
  from 2 consider "s = self" | "s \<in> set (budget_states ?n calls)" by auto
  then show ?case
  proof cases
    case 1
    then show ?thesis by simp
  next
    case 2
    have "current_spending self \<le> current_spending ?n"
      using "2.prems"(1) by (simp add: add_spending_mono)
    moreover have "current_spending ?n \<le> current_spending s"
      using "2.IH" "2.prems"(1) 2 by (simp add: add_spending_fields)
    ultimately show ?thesis by simp
  qed
qed

lemma budget_states_sorted:
  "\<forall>call \<in> set calls. nonneg_call (budget_currency b) call \<Longrightarrow>
     sorted (map current_spending (budget_states b calls))"
proof (induction b calls rule: budget_states.induct)
  case (1 self)
  then show ?case by simp
next
  case (2 self rates amt cur calls)
  let ?n = "fst (add_spending rates self amt cur)"
  have step: "current_spending self \<le> current_spending ?n"
    using "2.prems" by (simp add: add_spending_mono)
  have rest: "\<forall>call \<in> set calls. nonneg_call (budget_currency ?n) call"
    using "2.prems" by (simp add: add_spending_fields)
  have "\<forall>s \<in> set (budget_states ?n calls). current_spending self \<le> current_spending s"
    using budget_states_lower [OF rest] step by fastforce
  then show ?case using "2.IH" rest by simp
qed

lemma budget_states_percentage_sorted:
  assumes "\<forall>call \<in> set calls. nonneg_call (budget_currency b) call"
    and "0 < monthly_limit b"
  shows "sorted (map percentage_used (budget_states b calls))"
proof -
  have "sorted_wrt (\<lambda>x y. current_spending x \<le> current_spending y) (budget_states b calls)"
    using budget_states_sorted [OF assms(1)] by (simp only: sorted_map)
  then have "sorted_wrt (\<lambda>x y. percentage_used x \<le> percentage_used y) (budget_states b calls)"
  proof (rule sorted_wrt_mono_rel [rotated])
    fix x y
    assume "x \<in> set (budget_states b calls)" "y \<in> set (budget_states b calls)"
      and le: "current_spending x \<le> current_spending y"
    then have "monthly_limit x = monthly_limit b" "monthly_limit y = monthly_limit b"
      by (simp_all add: budget_states_limit)
    then show "percentage_used x \<le> percentage_used y"
      using le assms(2) by (simp add: percentage_used_def divide_right_mono)
  qed
  then show ?thesis by (simp only: sorted_map)
qed

lemma positive_rates_nonneg:
  "0 \<le> amt \<Longrightarrow> positive_rate rates cur \<Longrightarrow> positive_rate rates target \<Longrightarrow>
     nonneg_call target (rates, amt, cur)"
  by (auto simp: convert_def positive_rate_def Let_def split: option.splits sum.splits if_splits)

text \<open>
  Claim C8, as stated, at a negative amount, which \<open>add_spending\<close> accepts as it accepts
  any float: the running spend of a fresh budget becomes negative.
\<close>

theorem negative_spending_counterexample:
  "current_spending (Budget_init FOOD 1000 INR 80) = 0
   \<and> snd (add_spending default_rates (Budget_init FOOD 1000 INR 80) (- 5) INR) = Inr None
   \<and> current_spending
        (fst (add_spending default_rates (Budget_init FOOD 1000 INR 80) (- 5) INR)) = - 5
   \<and> current_spending
        (fst (add_spending default_rates (Budget_init FOOD 1000 INR 80) (- 5) INR)) < 0"
  by (simp add: add_spending_def Budget_init_def convert_def percentage_used_def Let_def)

text \<open>
  Claim C8 (amended): the running spend of a budget is 0 initially and, after every sequence
  of \<open>add_spending\<close> calls, equals the sum of the converted amounts of the calls whose
  conversion succeeded; it is therefore at least 0 exactly when that sum is.
\<close>

theorem current_spending_is_sum:
  "current_spending (Budget_init cat limit cur threshold) = 0
   \<and> current_spending (budget_after (Budget_init cat limit cur threshold) calls) =
       sum_list (converted_amounts cur calls)
   \<and> (0 \<le> current_spending (budget_after (Budget_init cat limit cur threshold) calls)
       \<longleftrightarrow> 0 \<le> sum_list (converted_amounts cur calls))"
  by (simp add: budget_after_current_spending) (simp add: Budget_init_def)

theorem current_spending_is_sum_witness:
  "current_spending (budget_after (Budget_init FOOD 1000 INR 80)
      [(default_rates, 12, USD), (Map.empty, 3, EUR), (default_rates, - 400, INR)]) = 600"
  using current_spending_is_sum [of FOOD 1000 INR 80
      "[(default_rates, 12, USD), (Map.empty, 3, EUR), (default_rates, - 400, INR)]"]
  by (simp add: convert_def default_rates_def)

text \<open>
  Claim C10: a call with a non-negative amount, made while the rates of the expense's and
  of the budget's currency are strictly positive, has a non-negative converted amount; and
  over every sequence of calls whose converted amounts are non-negative, the running spend
  of a budget created by \<open>Budget.__init__\<close> never decreases, hence is never negative,
  and with a strictly positive monthly limit the percentage used never decreases.
\<close>

theorem spending_non_decreasing:
  "(0 \<le> amt \<and> positive_rate rates ecur \<and> positive_rate rates cur
      \<longrightarrow> nonneg_call cur (rates, amt, ecur))
   \<and> ((\<forall>call \<in> set calls. nonneg_call cur call) \<longrightarrow>
        sorted (map current_spending
          (budget_states (Budget_init cat limit cur threshold) calls))
        \<and> (\<forall>s \<in> set (budget_states (Budget_init cat limit cur threshold) calls).
              0 \<le> current_spending s)
        \<and> (0 < limit \<longrightarrow>
             sorted (map percentage_used
               (budget_states (Budget_init cat limit cur threshold) calls))))"
proof -
  let ?init = "Budget_init cat limit cur threshold"
  have init: "budget_currency ?init = cur" "monthly_limit ?init = limit"
    "current_spending ?init = 0"
    by (simp_all add: Budget_init_def)
  have "nonneg_call cur (rates, amt, ecur)"
    if "0 \<le> amt" "positive_rate rates ecur" "positive_rate rates cur"
    using that by (rule positive_rates_nonneg)
  moreover have "sorted (map current_spending (budget_states ?init calls))"
    if "\<forall>call \<in> set calls. nonneg_call cur call"
    using budget_states_sorted [of calls ?init] that by (simp add: init)
  moreover have "0 \<le> current_spending s"
    if "\<forall>call \<in> set calls. nonneg_call cur call" "s \<in> set (budget_states ?init calls)" for s
    using budget_states_lower [of calls ?init s] that by (simp add: init)
  moreover have "sorted (map percentage_used (budget_states ?init calls))"
    if "\<forall>call \<in> set calls. nonneg_call cur call" "0 < limit"
    using budget_states_percentage_sorted [of calls ?init] that by (simp add: init)
  ultimately show ?thesis by blast
qed

theorem spending_non_decreasing_witness:
  "nonneg_call INR (default_rates, 12, USD)
   \<and> map current_spending (budget_states (Budget_init FOOD 2000 INR 50)
        [(default_rates, 12, USD), (default_rates, 5, INR)]) = [0, 1000, 1005]
   \<and> sorted (map current_spending (budget_states (Budget_init FOOD 2000 INR 50)
        [(default_rates, 12, USD), (default_rates, 5, INR)]))
   \<and> sorted (map percentage_used (budget_states (Budget_init FOOD 2000 INR 50)
        [(default_rates, 12, USD), (default_rates, 5, INR)]))"
proof -
  have pos: "(0::real) \<le> 12" "positive_rate default_rates USD"
    "positive_rate default_rates INR"
    by (simp_all add: positive_rate_def default_rates_def)
  have calls: "\<forall>call \<in> set [(default_rates, 12, USD), (default_rates, 5, INR)].
      nonneg_call INR call"
    by (simp add: convert_def default_rates_def)
  have lim: "(0::real) < 2000" by simp
  have vals: "map current_spending (budget_states (Budget_init FOOD 2000 INR 50)
        [(default_rates, 12, USD), (default_rates, 5, INR)]) = [0, 1000, 1005]"
    by (simp add: add_spending_def Budget_init_def convert_def percentage_used_def Let_def
        default_rates_def)
  show ?thesis
    using pos calls lim vals
      spending_non_decreasing [of 12 default_rates USD INR
        "[(default_rates, 12, USD), (default_rates, 5, INR)]" FOOD 2000 50]
    by blast
qed

section \<open>Categorisation of expenses\<close>

lemma add_expense_stores:
  "expenses (fst (add_expense rates today self amt descr date_opt category_opt currency_opt
      recurring period_days tags_opt payment_method_opt)) =
   expenses self @
     [\<lparr>amount = amt,
       category = resolve_category self category_opt
         (case tags_opt of None \<Rightarrow> [] | Some ts \<Rightarrow> ts) descr,
       description = descr,
       date = (case date_opt of None \<Rightarrow> today | Some d \<Rightarrow> d),
       currency = (case currency_opt of None \<Rightarrow> default_currency self | Some c \<Rightarrow> c),
       is_recurring = recurring, recurring_period_days = period_days,
       tags = (case tags_opt of None \<Rightarrow> [] | Some ts \<Rightarrow> ts),
       payment_method = (case payment_method_opt of None \<Rightarrow> ''Cash'' | Some p \<Rightarrow> p)\<rparr>]"
  by (simp add: add_expense_def Let_def split: option.splits prod.splits sum.splits)

lemma add_expense_returns_stored:
  "snd (add_expense rates today self amt descr date_opt category_opt currency_opt
      recurring period_days tags_opt payment_method_opt) = Inr (e, al) \<Longrightarrow>
   e = last (expenses (fst (add_expense rates today self amt descr date_opt category_opt
      currency_opt recurring period_days tags_opt payment_method_opt)))"
  by (auto simp: add_expense_def Let_def split: option.splits prod.splits sum.splits)

lemma categorize_from_tags_first:
  "\<forall>x \<in> set pre. map_of (user_tags self) x = None \<Longrightarrow>
   map_of (user_tags self) t = Some tg \<Longrightarrow>
   categorize_from_tags self (pre @ t # post) = Some (tag_category tg)"
  by (induction pre) simp_all

lemma categorize_from_tags_none:
  "categorize_from_tags self ts = None \<longleftrightarrow> (\<forall>x \<in> set ts. map_of (user_tags self) x = None)"
  by (induction ts) (auto split: option.splits)

lemma scan_registry_none:
  "\<forall>(name, tag) \<in> set reg. \<not> sublist name d \<Longrightarrow> scan_registry reg d = OTHER"
  by (induction reg d rule: scan_registry.induct) auto

lemma scan_registry_find:
  "scan_registry reg d =
     (case find (\<lambda>(name, tag). sublist name d) reg of
        None \<Rightarrow> OTHER | Some (name, tag) \<Rightarrow> tag_category tag)"
  by (induction reg d rule: scan_registry.induct) auto

lemma of_char_lower_char: "\<not> ((65::nat) \<le> of_char (lower_char c) \<and> of_char (lower_char c) \<le> (90::nat))"
  by (auto simp: lower_char_def)

lemma lower_no_upper:
  "c \<in> set (lower s) \<Longrightarrow> \<not> ((65::nat) \<le> of_char c \<and> of_char c \<le> (90::nat))"
  using of_char_lower_char by (auto simp: lower_def)

lemma upper_name_never_matches:
  assumes "c \<in> set name" "(65::nat) \<le> of_char c" "of_char c \<le> (90::nat)"
  shows "\<not> sublist name (lower d)"
proof
  assume "sublist name (lower d)"
  then have "set name \<subseteq> set (lower d)" by (rule set_mono_sublist)
  with assms(1) have "c \<in> set (lower d)" by blast
  with assms(2,3) show False using lower_no_upper by blast
qed


text \<open>
  What the description fallback computes: the category of the first entry of the registry
  whose key, as stored, occurs in the lowered description, and \<open>OTHER\<close> when there is
  none.  A key that holds an upper-case letter occurs in no lowered description.
\<close>

lemma categorize_from_description_first_match:
  "categorize_from_description self descr =
     (case find (\<lambda>(name, tag). sublist name (lower descr)) (user_tags self) of
        None \<Rightarrow> OTHER
      | Some (name, tag) \<Rightarrow> tag_category tag)"
  by (simp add: categorize_from_description_def scan_registry_find)

text \<open>
  Claim C9 at a registry entry whose name is not all lower case: after
  \<open>add_tag("Gym", HEALTH)\<close> on a new user, \<open>Gym\<close> is the first (and only) entry whose
  name is a case-insensitive substring of the description \<open>Gym membership\<close>, so the claim
  gives \<open>HEALTH\<close>; the code lowers the description only, finds no key in it and returns
  \<open>OTHER\<close>.
\<close>

theorem mixed_case_tag_not_matched:
  "map_of (user_tags (add_tag (User_init ''u'' INR) ''Gym'' HEALTH)) ''Gym'' =
     Some \<lparr>tag_name = ''Gym'', tag_category = HEALTH\<rparr>
   \<and> map fst (filter (\<lambda>(name, tag). sublist (lower name) (lower ''Gym membership''))
        (user_tags (add_tag (User_init ''u'' INR) ''Gym'' HEALTH))) = [''Gym'']
   \<and> categorize_from_description (add_tag (User_init ''u'' INR) ''Gym'' HEALTH)
        ''Gym membership'' = OTHER"
  by code_simp


text \<open>
  Claim C3: the expense that \<open>add_expense\<close> stores has the category given by the
  four-step resolution.  An explicit category is used as it is; without one, the first tag
  of the list that is a key of the registry gives the category of its entry; when no tag of
  the list is a key, the description fallback decides; and when moreover no key occurs in
  the lowered description, the category is \<open>OTHER\<close>.  In particular, with the registry
  mapping \<open>rent\<close> to \<open>HOUSING\<close>, an expense added with the tags \<open>["rent"]\<close> and no
  explicit category is stored under \<open>HOUSING\<close>, whatever its description.
\<close>

theorem category_resolution_precedence:
  "category (last (expenses (fst (add_expense rates today self amt descr date_opt
       category_opt currency_opt recurring period_days tags_opt payment_method_opt)))) =
     resolve_category self category_opt (case tags_opt of None \<Rightarrow> [] | Some ts \<Rightarrow> ts) descr
   \<and> resolve_category self (Some c) ts descr = c
   \<and> ((\<forall>x \<in> set pre. map_of (user_tags self) x = None)
        \<and> map_of (user_tags self) t = Some tg
      \<longrightarrow> resolve_category self None (pre @ t # post) descr = tag_category tg)
   \<and> ((\<forall>x \<in> set ts. map_of (user_tags self) x = None)
      \<longrightarrow> resolve_category self None ts descr = categorize_from_description self descr)
   \<and> ((\<forall>x \<in> set ts. map_of (user_tags self) x = None)
        \<and> (\<forall>(name, tag) \<in> set (user_tags self). \<not> sublist name (lower descr))
      \<longrightarrow> resolve_category self None ts descr = OTHER)
   \<and> (map_of (user_tags self) ''rent'' = Some tg \<and> tag_category tg = HOUSING
      \<longrightarrow> category (last (expenses (fst (add_expense rates today self amt descr date_opt
            None currency_opt recurring period_days (Some [''rent'']) payment_method_opt)))) =
          HOUSING)"
proof -
  have stored: "category (last (expenses (fst (add_expense rates today self amt descr d
       co cu recurring period_days tgs payment_method_opt)))) =
     resolve_category self co (case tgs of None \<Rightarrow> [] | Some ts \<Rightarrow> ts) descr" for d co cu tgs
    by (simp add: add_expense_stores)
  have explicit: "resolve_category self (Some c) ts descr = c"
    by (simp add: resolve_category_def)
  have first_tag: "resolve_category self None (pre @ t # post) descr = tag_category tg"
    if "\<forall>x \<in> set pre. map_of (user_tags self) x = None" "map_of (user_tags self) t = Some tg"
    using categorize_from_tags_first [OF that] by (simp add: resolve_category_def)
  have fallback: "resolve_category self None ts descr = categorize_from_description self descr"
    if "\<forall>x \<in> set ts. map_of (user_tags self) x = None"
    using that categorize_from_tags_none [of self ts] by (simp add: resolve_category_def)
  have other: "resolve_category self None ts descr = OTHER"
    if "\<forall>x \<in> set ts. map_of (user_tags self) x = None"
      "\<forall>(name, tag) \<in> set (user_tags self). \<not> sublist name (lower descr)"
    using fallback [OF that(1)] scan_registry_none [OF that(2)]
    by (simp add: categorize_from_description_def)
  have rent: "category (last (expenses (fst (add_expense rates today self amt descr date_opt
        None currency_opt recurring period_days (Some [''rent'']) payment_method_opt)))) =
      HOUSING"
    if "map_of (user_tags self) ''rent'' = Some tg" "tag_category tg = HOUSING"
    using that by (simp add: stored resolve_category_def)
  from stored explicit first_tag fallback other rent show ?thesis by blast
qed

theorem category_resolution_precedence_witness:
  "resolve_category (User_init ''u'' INR) None [''lunch'', ''rent'', ''fuel'']
      ''Movie and fuel'' = HOUSING
   \<and> resolve_category (User_init ''u'' INR) None [''lunch''] ''Movie and fuel'' =
       TRANSPORTATION
   \<and> category (last (expenses (fst (add_expense default_rates
        \<lparr>year = 2024, month = 5, day = 1\<rparr> (User_init ''u'' INR) 100 ''Movie and fuel''
        None None None False 0 (Some [''rent'']) None)))) = HOUSING"
proof -
  let ?u = "User_init ''u'' INR"
  have reg: "user_tags ?u = map (\<lambda>tag. (tag_name tag, tag)) default_tags"
    by (simp add: User_init_def initialize_default_tags_def default_tags_def)
  have lunch: "\<forall>x \<in> set [''lunch'']. map_of (user_tags ?u) x = None"
    by (simp add: reg default_tags_def)
  have rent: "map_of (user_tags ?u) ''rent'' =
      Some \<lparr>tag_name = ''rent'', tag_category = HOUSING\<rparr>"
    by (simp add: reg default_tags_def)
  have descr: "categorize_from_description ?u ''Movie and fuel'' = TRANSPORTATION"
    by code_simp
  note inst = category_resolution_precedence
      [of default_rates "\<lparr>year = 2024, month = 5, day = 1\<rparr>"
        ?u 100 "''Movie and fuel''" None None None False 0 "Some [''rent'']" None
        HOUSING "[''lunch'']" "[''lunch'']" "''rent''"
        "\<lparr>tag_name = ''rent'', tag_category = HOUSING\<rparr>" "[''fuel'']"]
  have first_tag: "resolve_category ?u None [''lunch'', ''rent'', ''fuel'']
      ''Movie and fuel'' = HOUSING"
    using inst [THEN conjunct2, THEN conjunct2, THEN conjunct1] lunch rent by simp
  have fallback: "resolve_category ?u None [''lunch''] ''Movie and fuel'' = TRANSPORTATION"
    using inst [THEN conjunct2, THEN conjunct2, THEN conjunct2, THEN conjunct1] lunch descr
    by simp
  have stored: "category (last (expenses (fst (add_expense default_rates
        \<lparr>year = 2024, month = 5, day = 1\<rparr> ?u 100 ''Movie and fuel''
        None None None False 0 (Some [''rent'']) None)))) = HOUSING"
    using inst [THEN conjunct2, THEN conjunct2, THEN conjunct2, THEN conjunct2,
        THEN conjunct2] rent
    by simp
  from first_tag fallback stored show ?thesis by simp
qed

section \<open>Spending breakdown\<close>

lemma all_categories_complete: "k \<in> set all_categories"
  by (cases k) (simp_all add: all_categories_def)

lemma distinct_all_categories: "distinct all_categories"
  by (simp add: all_categories_def)

lemma in_period_iff:
  "in_period s e x \<longleftrightarrow>
     \<not> (case s of None \<Rightarrow> False | Some s' \<Rightarrow> date_less (date x) s')
     \<and> \<not> (case e of None \<Rightarrow> False | Some e' \<Rightarrow> date_less e' (date x))"
  by (simp add: in_period_def date_le_def split: option.splits)

lemma breakdown_loop_Cons:
  "breakdown_loop fadd rates t s e (x # xs) bd =
     (if \<not> in_period s e x then breakdown_loop fadd rates t s e xs bd
      else case amount_in rates t x of
             Inl err \<Rightarrow> Inl err
           | Inr a \<Rightarrow>
               breakdown_loop fadd rates t s e xs (bd(category x := fadd (bd (category x)) a)))"
  by (simp add: in_period_iff)

lemma breakdown_loop_accumulates:
  "breakdown_loop fadd rates t s e xs bd = Inr bd' \<Longrightarrow>
     bd' k = foldl fadd (bd k)
       (amounts_in rates t (filter (\<lambda>x. in_period s e x \<and> category x = k) xs))"
proof (induction xs arbitrary: bd)
  case Nil
  then show ?case by simp
next
  case (Cons x xs)
  show ?case
  proof (cases "in_period s e x")
    case False
    with Cons.prems have "breakdown_loop fadd rates t s e xs bd = Inr bd'"
      by (simp only: breakdown_loop_Cons if_True simp_thms)
    from Cons.IH [OF this] False show ?thesis by simp
  next
    case True
    with Cons.prems obtain a where a: "amount_in rates t x = Inr a"
      and rest: "breakdown_loop fadd rates t s e xs
        (bd(category x := fadd (bd (category x)) a)) = Inr bd'"
      by (auto simp only: breakdown_loop_Cons simp_thms if_False split: sum.splits)
    from Cons.IH [OF rest] True a show ?thesis by simp
  qed
qed

lemma breakdown_loop_returns:
  "returned (breakdown_loop fadd rates t s e xs bd) \<longleftrightarrow>
     (\<forall>x \<in> set xs. in_period s e x \<longrightarrow> returned (amount_in rates t x))"
proof (induction xs arbitrary: bd)
  case Nil
  then show ?case by simp
next
  case (Cons x xs)
  then show ?case
    by (simp only: breakdown_loop_Cons) (auto split: sum.splits)
qed

lemma map_of_positive_items:
  "k \<in> set ks \<Longrightarrow>
     map_of (filter (\<lambda>(k, v). 0 < v) (map (\<lambda>k. (k, f k)) ks)) k =
       (if 0 < f k then Some (f k :: real) else None)"
  by (induction ks) (auto simp: map_of_eq_None_iff image_iff)

lemma distinct_positive_items:
  "distinct ks \<Longrightarrow>
     distinct (map fst (filter (\<lambda>(k, v). 0 < v) (map (\<lambda>k. (k, f k :: real)) ks)))"
  by (induction ks) (auto simp: image_iff)

lemma get_spending_breakdown_returns:
  "returned (get_spending_breakdown fadd rates self tc s e) \<longleftrightarrow>
     (\<forall>x \<in> set (expenses self).
        in_period s e x \<longrightarrow> returned (amount_in rates (target_or_default self tc) x))"
proof -
  have "returned (get_spending_breakdown fadd rates self tc s e) \<longleftrightarrow>
      returned (breakdown_loop fadd rates (target_or_default self tc) s e (expenses self)
        (\<lambda>k. 0))"
    by (simp add: get_spending_breakdown_def Let_def split: sum.splits)
  then show ?thesis by (simp only: breakdown_loop_returns)
qed

lemma get_spending_breakdown_items:
  assumes "get_spending_breakdown fadd rates self tc s e = Inr res"
  shows "res = filter (\<lambda>(k, v). 0 < v)
     (map (\<lambda>k. (k, accumulated fadd rates (target_or_default self tc) s e (expenses self) k))
        all_categories)"
proof -
  from assms obtain bd where
    bd: "breakdown_loop fadd rates (target_or_default self tc) s e (expenses self) (\<lambda>k. 0) =
      Inr bd"
    and res: "res = filter (\<lambda>(k, v). 0 < v) (map (\<lambda>k. (k, bd k)) all_categories)"
    by (auto simp: get_spending_breakdown_def Let_def split: sum.splits)
  have "bd k = accumulated fadd rates (target_or_default self tc) s e (expenses self) k" for k
    using breakdown_loop_accumulates [OF bd, of k] by (simp add: accumulated_def)
  then show ?thesis using res by simp
qed


lemma double_exponent_eq:
  assumes "0 < x" "2 powi e \<le> x" "x < 2 powi (e + 1)" "- 1022 \<le> e"
  shows "double_exponent x = e"
proof -
  have "(2::real) powr real_of_int e = 2 powi e"
    by (intro powr_real_of_int') simp_all
  moreover have "(2::real) powr real_of_int (e + 1) = 2 powi (e + 1)"
    by (intro powr_real_of_int') simp_all
  ultimately have "2 powr real_of_int e \<le> x \<and> x < 2 powr real_of_int (e + 1)"
    using assms(2,3) by (simp only: simp_thms)
  then have "\<lfloor>log 2 x\<rfloor> = e"
    using floor_log_eq_powr_iff [of x 2 e] assms(1) by simp
  then show ?thesis using assms(1,4) by (simp add: double_exponent_def)
qed

text \<open>
  Rounding a positive number of the binade of exponent \<open>e\<close>, written as a whole number
  \<open>n\<close> of units in the last place plus a remainder \<open>r\<close>.
\<close>

lemma round_double_value:
  assumes "0 < x" "2 powi e \<le> x" "x < 2 powi (e + 1)" "- 1022 \<le> e"
    and "x = (of_int n + r) * 2 powi (e - 52)" "0 \<le> r" "r < 1"
  shows "round_double x =
    (if r < 1 / 2 \<or> (r = 1 / 2 \<and> even n) then of_int n else of_int n + 1) * 2 powi (e - 52)"
proof -
  have e: "double_exponent x = e" using assms(1-4) by (rule double_exponent_eq)
  have pos: "(2::real) powi (e - 52) > 0" by simp
  have q: "x / 2 powi (e - 52) = of_int n + r"
    using assms(5) pos by simp
  have n: "\<lfloor>x / 2 powi (e - 52)\<rfloor> = n"
    unfolding q using assms(6,7) by (simp add: floor_unique)
  have frac: "x / 2 powi (e - 52) - of_int n = r"
    unfolding q by simp
  have "x \<noteq> 0" using assms(1) by simp
  then show ?thesis
    unfolding round_double_def e Let_def n frac by (simp only: if_False)
qed

lemma double_0_1_positive: "0 < double_0_1"
  by (simp add: double_0_1_def)

lemma double_add_0_tenth: "double_add 0 double_0_1 = double_0_1"
  unfolding double_add_def double_0_1_def
  by (subst round_double_value [where e = "- 4" and n = 7205759403792794 and r = 0])
    (simp_all add: power_int_minus)

lemma double_add_tenth_tenth: "double_add double_0_1 double_0_1 = 3602879701896397 / 2 ^ 54"
  unfolding double_add_def double_0_1_def
  by (subst round_double_value [where e = "- 3" and n = 7205759403792794 and r = 0])
    (simp_all add: power_int_minus)

lemma double_add_tenth_four_tenths: "double_add double_0_1 double_0_4 = 1 / 2"
  unfolding double_add_def double_0_1_def double_0_4_def
  by (subst round_double_value [where e = "- 1" and n = 4503599627370496 and r = "1 / 4"])
    (simp_all add: power_int_minus)

lemma double_add_0_half: "double_add 0 (1 / 2) = 1 / 2"
  unfolding double_add_def
  by (subst round_double_value [where e = "- 1" and n = 4503599627370496 and r = 0])
    (simp_all add: power_int_minus)

lemma double_add_half_tenth: "double_add (1 / 2) double_0_1 = 5404319552844595 / 2 ^ 53"
  unfolding double_add_def double_0_1_def
  by (subst round_double_value [where e = "- 1" and n = 5404319552844595 and r = "1 / 4"])
    (simp_all add: power_int_minus)

lemma double_add_fifth_four_tenths:
  "double_add (3602879701896397 / 2 ^ 54) double_0_4 = 5404319552844596 / 2 ^ 53"
  unfolding double_add_def double_0_4_def
  by (subst round_double_value [where e = "- 1" and n = 5404319552844595 and r = "1 / 2"])
    (simp_all add: power_int_minus)

text \<open>
  Claim C2, as stated, on a ledger of three expenses in the user's currency, added
  through \<open>add_expense\<close>: 0.1 for food, 0.1 for transport, 0.4 for food, no bounds.  All
  three are included.  The food bucket is 0.1 + 0.4, which rounds to 0.5, and the result
  is \<open>{FOOD: 0.5, TRANSPORTATION: 0.1}\<close>.  The returned values sum to 0.6 (Python's
  \<open>sum\<close>, a left fold of float additions from 0), the included amounts to
  0.6000000000000001; the exact sums of the two lists differ as well.
\<close>

theorem breakdown_sum_counterexample:
  "get_spending_breakdown double_add default_rates
     (fst (add_expense default_rates \<lparr>year = 2024, month = 1, day = 15\<rparr>
       (fst (add_expense default_rates \<lparr>year = 2024, month = 1, day = 15\<rparr>
         (fst (add_expense default_rates \<lparr>year = 2024, month = 1, day = 15\<rparr>
           (User_init ''u'' INR) double_0_1 ''lunch'' None (Some FOOD) None False 0 None None))
         double_0_1 ''bus'' None (Some TRANSPORTATION) None False 0 None None))
       double_0_4 ''tea'' None (Some FOOD) None False 0 None None))
     None None None = Inr [(FOOD, 1 / 2), (TRANSPORTATION, double_0_1)]
   \<and> amounts_in default_rates INR (filter (in_period None None) (expenses
     (fst (add_expense default_rates \<lparr>year = 2024, month = 1, day = 15\<rparr>
       (fst (add_expense default_rates \<lparr>year = 2024, month = 1, day = 15\<rparr>
         (fst (add_expense default_rates \<lparr>year = 2024, month = 1, day = 15\<rparr>
           (User_init ''u'' INR) double_0_1 ''lunch'' None (Some FOOD) None False 0 None None))
         double_0_1 ''bus'' None (Some TRANSPORTATION) None False 0 None None))
       double_0_4 ''tea'' None (Some FOOD) None False 0 None None)))) =
       [double_0_1, double_0_1, double_0_4]
   \<and> foldl double_add 0 [1 / 2, double_0_1] = 5404319552844595 / 2 ^ 53
   \<and> foldl double_add 0 [double_0_1, double_0_1, double_0_4] = 5404319552844596 / 2 ^ 53
   \<and> foldl double_add 0 [1 / 2, double_0_1]
       \<noteq> foldl double_add 0 [double_0_1, double_0_1, double_0_4]
   \<and> sum_list [1 / 2, double_0_1] \<noteq> sum_list [double_0_1, double_0_1, double_0_4]"
proof -
  let ?u = "fst (add_expense default_rates \<lparr>year = 2024, month = 1, day = 15\<rparr>
       (fst (add_expense default_rates \<lparr>year = 2024, month = 1, day = 15\<rparr>
         (fst (add_expense default_rates \<lparr>year = 2024, month = 1, day = 15\<rparr>
           (User_init ''u'' INR) double_0_1 ''lunch'' None (Some FOOD) None False 0 None None))
         double_0_1 ''bus'' None (Some TRANSPORTATION) None False 0 None None))
       double_0_4 ''tea'' None (Some FOOD) None False 0 None None)"
  have ledger: "expenses ?u =
      [\<lparr>amount = double_0_1, category = FOOD, description = ''lunch'',
        date = \<lparr>year = 2024, month = 1, day = 15\<rparr>, currency = INR, is_recurring = False,
        recurring_period_days = 0, tags = [], payment_method = ''Cash''\<rparr>,
       \<lparr>amount = double_0_1, category = TRANSPORTATION, description = ''bus'',
        date = \<lparr>year = 2024, month = 1, day = 15\<rparr>, currency = INR, is_recurring = False,
        recurring_period_days = 0, tags = [], payment_method = ''Cash''\<rparr>,
       \<lparr>amount = double_0_4, category = FOOD, description = ''tea'',
        date = \<lparr>year = 2024, month = 1, day = 15\<rparr>, currency = INR, is_recurring = False,
        recurring_period_days = 0, tags = [], payment_method = ''Cash''\<rparr>]"
    and cur: "default_currency ?u = INR"
    by (simp_all add: add_expense_stores resolve_category_def add_expense_def Let_def
        User_init_def initialize_default_tags_def)
  have result: "get_spending_breakdown double_add default_rates ?u None None None =
      Inr [(FOOD, 1 / 2), (TRANSPORTATION, double_0_1)]"
    by (simp add: get_spending_breakdown_def target_or_default_def cur ledger amount_in_def
        all_categories_def double_add_0_tenth double_add_tenth_four_tenths
        double_0_1_positive)
  have included: "amounts_in default_rates INR (filter (in_period None None) (expenses ?u)) =
      [double_0_1, double_0_1, double_0_4]"
    by (simp add: ledger in_period_def amount_in_def)
  have returned_sum: "foldl double_add 0 [1 / 2, double_0_1] = 5404319552844595 / 2 ^ 53"
    by (simp only: foldl.simps double_add_0_half double_add_half_tenth)
  have included_sum: "foldl double_add 0 [double_0_1, double_0_1, double_0_4] =
      5404319552844596 / 2 ^ 53"
    by (simp only: foldl.simps double_add_0_tenth double_add_tenth_tenth
        double_add_fifth_four_tenths)
  have differ: "foldl double_add 0 [1 / 2, double_0_1]
      \<noteq> foldl double_add 0 [double_0_1, double_0_1, double_0_4]"
    unfolding returned_sum included_sum by simp
  have exact: "sum_list [1 / 2, double_0_1] \<noteq> sum_list [double_0_1, double_0_1, double_0_4]"
    by (simp add: double_0_1_def double_0_4_def)
  from result included returned_sum included_sum differ exact show ?thesis
    by (simp only: simp_thms)
qed

text \<open>
  Claim C2 (amended), for every addition \<open>fadd\<close> in the place of the float addition:
  \<open>get_spending_breakdown\<close> returns exactly when every expense within the inclusive
  bounds converts to the target currency.  The result then holds exactly the categories
  whose accumulated value is strictly positive, each once and with that value, the value
  accumulated for a category being the amounts of the expenses of that category within the
  bounds (and of no others), added one after the other in ledger order.
\<close>

theorem breakdown_of_period:
  "(returned (get_spending_breakdown fadd rates self tc s e) \<longleftrightarrow>
      (\<forall>x \<in> set (expenses self).
         in_period s e x \<longrightarrow> returned (amount_in rates (target_or_default self tc) x)))
   \<and> (get_spending_breakdown fadd rates self tc s e = Inr res \<longrightarrow>
        (\<forall>k. map_of res k =
           (if 0 < accumulated fadd rates (target_or_default self tc) s e (expenses self) k
            then Some (accumulated fadd rates (target_or_default self tc) s e
                         (expenses self) k)
            else None))
        \<and> distinct (map fst res)
        \<and> (\<forall>(k, v) \<in> set res. 0 < v))"
proof -
  let ?acc = "accumulated fadd rates (target_or_default self tc) s e (expenses self)"
  have items: "map_of res k = (if 0 < ?acc k then Some (?acc k) else None)"
    if ok: "get_spending_breakdown fadd rates self tc s e = Inr res" for k
    unfolding get_spending_breakdown_items [OF ok]
    by (rule map_of_positive_items) (rule all_categories_complete)
  have dist: "distinct (map fst res)"
    if ok: "get_spending_breakdown fadd rates self tc s e = Inr res"
    unfolding get_spending_breakdown_items [OF ok]
    by (rule distinct_positive_items) (rule distinct_all_categories)
  have positive: "\<forall>(k, v) \<in> set res. 0 < v"
    if ok: "get_spending_breakdown fadd rates self tc s e = Inr res"
    unfolding get_spending_breakdown_items [OF ok] by auto
  from items dist positive
  show ?thesis
    using get_spending_breakdown_returns [of fadd rates self tc s e] by blast
qed

theorem breakdown_of_period_witness:
  "get_spending_breakdown double_add default_rates
     (fst (add_expense default_rates \<lparr>year = 2024, month = 3, day = 5\<rparr>
       (fst (add_expense default_rates \<lparr>year = 2024, month = 3, day = 5\<rparr>
         (fst (add_expense default_rates \<lparr>year = 2024, month = 3, day = 5\<rparr>
           (User_init ''u'' INR) double_0_1 ''lunch''
           (Some \<lparr>year = 2024, month = 1, day = 15\<rparr>) (Some FOOD) None False 0 None None))
         double_0_1 ''tea'' (Some \<lparr>year = 2024, month = 2, day = 1\<rparr>) (Some FOOD) None
         False 0 None None))
       double_0_4 ''snack'' (Some \<lparr>year = 2024, month = 2, day = 10\<rparr>) (Some FOOD) None
       False 0 None None))
     (Some INR) (Some \<lparr>year = 2024, month = 1, day = 20\<rparr>)
     (Some \<lparr>year = 2024, month = 2, day = 29\<rparr>) = Inr [(FOOD, 1 / 2)]
   \<and> accumulated double_add default_rates INR (Some \<lparr>year = 2024, month = 1, day = 20\<rparr>)
        (Some \<lparr>year = 2024, month = 2, day = 29\<rparr>)
        (expenses
     (fst (add_expense default_rates \<lparr>year = 2024, month = 3, day = 5\<rparr>
       (fst (add_expense default_rates \<lparr>year = 2024, month = 3, day = 5\<rparr>
         (fst (add_expense default_rates \<lparr>year = 2024, month = 3, day = 5\<rparr>
           (User_init ''u'' INR) double_0_1 ''lunch''
           (Some \<lparr>year = 2024, month = 1, day = 15\<rparr>) (Some FOOD) None False 0 None None))
         double_0_1 ''tea'' (Some \<lparr>year = 2024, month = 2, day = 1\<rparr>) (Some FOOD) None
         False 0 None None))
       double_0_4 ''snack'' (Some \<lparr>year = 2024, month = 2, day = 10\<rparr>) (Some FOOD) None
       False 0 None None))) FOOD = 1 / 2"
proof -
  let ?u = "fst (add_expense default_rates \<lparr>year = 2024, month = 3, day = 5\<rparr>
       (fst (add_expense default_rates \<lparr>year = 2024, month = 3, day = 5\<rparr>
         (fst (add_expense default_rates \<lparr>year = 2024, month = 3, day = 5\<rparr>
           (User_init ''u'' INR) double_0_1 ''lunch''
           (Some \<lparr>year = 2024, month = 1, day = 15\<rparr>) (Some FOOD) None False 0 None None))
         double_0_1 ''tea'' (Some \<lparr>year = 2024, month = 2, day = 1\<rparr>) (Some FOOD) None
         False 0 None None))
       double_0_4 ''snack'' (Some \<lparr>year = 2024, month = 2, day = 10\<rparr>) (Some FOOD) None
       False 0 None None)"
  let ?s = "Some \<lparr>year = 2024, month = 1, day = 20\<rparr>"
  let ?e = "Some \<lparr>year = 2024, month = 2, day = 29\<rparr>"
  have ledger: "expenses ?u =
      [\<lparr>amount = double_0_1, category = FOOD, description = ''lunch'',
        date = \<lparr>year = 2024, month = 1, day = 15\<rparr>, currency = INR, is_recurring = False,
        recurring_period_days = 0, tags = [], payment_method = ''Cash''\<rparr>,
       \<lparr>amount = double_0_1, category = FOOD, description = ''tea'',
        date = \<lparr>year = 2024, month = 2, day = 1\<rparr>, currency = INR, is_recurring = False,
        recurring_period_days = 0, tags = [], payment_method = ''Cash''\<rparr>,
       \<lparr>amount = double_0_4, category = FOOD, description = ''snack'',
        date = \<lparr>year = 2024, month = 2, day = 10\<rparr>, currency = INR, is_recurring = False,
        recurring_period_days = 0, tags = [], payment_method = ''Cash''\<rparr>]"
    by (simp add: add_expense_stores resolve_category_def add_expense_def Let_def
        User_init_def initialize_default_tags_def)
  have target: "target_or_default ?u (Some INR) = INR"
    by (simp add: target_or_default_def)
  have ok: "get_spending_breakdown double_add default_rates ?u (Some INR) ?s ?e =
      Inr [(FOOD, 1 / 2)]"
    by (simp add: get_spending_breakdown_def target ledger amount_in_def date_less_def
        all_categories_def double_add_0_tenth double_add_tenth_four_tenths)
  have "map_of [(FOOD, 1 / 2 :: real)] FOOD =
      (if 0 < accumulated double_add default_rates INR ?s ?e (expenses ?u) FOOD
       then Some (accumulated double_add default_rates INR ?s ?e (expenses ?u) FOOD)
       else None)"
    using breakdown_of_period [of double_add default_rates ?u "Some INR" ?s ?e
        "[(FOOD, 1 / 2)]"] ok
    unfolding target by blast
  then have "accumulated double_add default_rates INR ?s ?e (expenses ?u) FOOD = 1 / 2"
    by (simp split: if_splits)
  with ok show ?thesis by (simp only: simp_thms)
qed


lemma foldl_plus_sum_list: "foldl (+) a xs = a + (sum_list xs :: real)"
  by (induction xs arbitrary: a) simp_all

lemma accumulated_exact:
  "accumulated (+) rates t s e xs k = category_total rates t s e xs k"
  by (simp add: accumulated_def category_total_def foldl_plus_sum_list)

lemma sum_list_single_category:
  "sum_list (map (\<lambda>k. if c = k then v else 0) all_categories) = (v::real)"
  by (cases c) (simp_all add: all_categories_def)

lemma amounts_in_by_category:
  "sum_list (map (\<lambda>k. sum_list (amounts_in rates t (filter (\<lambda>x. category x = k) xs)))
      all_categories) = sum_list (amounts_in rates t xs)"
proof (induction xs)
  case Nil
  then show ?case by simp
next
  case (Cons x xs)
  let ?g = "sum_list (amounts_in rates t [x])"
  have split: "sum_list (amounts_in rates t (filter (\<lambda>y. category y = k) (x # xs))) =
      (if category x = k then ?g else 0)
      + sum_list (amounts_in rates t (filter (\<lambda>y. category y = k) xs))" for k
    by (simp split: sum.splits)
  have "sum_list (amounts_in rates t (x # xs)) = ?g + sum_list (amounts_in rates t xs)"
    by (simp split: sum.splits)
  then show ?case
    using Cons.IH by (simp only: split sum_list_addf sum_list_single_category)
qed

lemma sum_positive_items:
  "sum_list (map snd (filter (\<lambda>(k, v). 0 < v) (map (\<lambda>k. (k, f k)) ks))) =
     sum_list (map (\<lambda>k. if 0 < f k then f k else (0::real)) ks)"
  by (induction ks) auto

lemma amounts_in_subset:
  "set (amounts_in rates t (filter (\<lambda>x. P x \<and> Q x) xs))
     \<subseteq> set (amounts_in rates t (filter P xs))"
  by (induction xs) (auto split: sum.splits)

lemma all_categories_sum:
  "sum_list (map (category_total rates t s e xs) all_categories) =
     sum_list (amounts_in rates t (filter (in_period s e) xs))"
proof -
  have "category_total rates t s e xs =
      (\<lambda>k. sum_list (amounts_in rates t
        (filter (\<lambda>x. category x = k) (filter (in_period s e) xs))))"
    by (rule ext) (simp add: category_total_def conj_commute)
  then show ?thesis
    by (simp only: amounts_in_by_category)
qed

lemma category_total_nonneg:
  assumes "\<forall>a \<in> set (amounts_in rates t (filter (in_period s e) xs)). 0 \<le> a"
  shows "0 \<le> category_total rates t s e xs k"
  unfolding category_total_def
  using assms amounts_in_subset [of rates t "in_period s e" "\<lambda>x. category x = k" xs]
  by (intro sum_list_nonneg) blast

text \<open>
  With an addition that does not round in place of the float addition, and no negative
  amount among the included expenses, the returned values do sum to the included amounts.
\<close>

lemma breakdown_sum_exact:
  assumes "get_spending_breakdown (+) rates self tc s e = Inr res"
    and "\<forall>a \<in> set (amounts_in rates (target_or_default self tc)
      (filter (in_period s e) (expenses self))). 0 \<le> a"
  shows "sum_list (map snd res) =
    sum_list (amounts_in rates (target_or_default self tc)
      (filter (in_period s e) (expenses self)))"
proof -
  let ?total = "category_total rates (target_or_default self tc) s e (expenses self)"
  have "sum_list (map snd res) =
      sum_list (map (\<lambda>k. if 0 < ?total k then ?total k else 0) all_categories)"
    unfolding get_spending_breakdown_items [OF assms(1)] accumulated_exact
    by (rule sum_positive_items)
  moreover have "(if 0 < ?total k then ?total k else 0) = ?total k" for k
    using category_total_nonneg [OF assms(2), of k] by simp
  ultimately have "sum_list (map snd res) = sum_list (map ?total all_categories)"
    by simp
  then show ?thesis by (simp only: all_categories_sum)
qed

section \<open>Monthly trend\<close>

lemma valid_date_iff:
  "valid_date d \<longleftrightarrow>
     1 \<le> year d \<and> year d \<le> 9999 \<and> 1 \<le> month d \<and> month d \<le> 12
     \<and> 1 \<le> day d \<and> day d \<le> days_in_month (year d) (month d)"
  by (simp add: valid_date_def date_new_def)

lemma date_le_month_index:
  assumes "1 \<le> month a" "month a \<le> 12" "1 \<le> month b" "month b \<le> 12"
    and "date_le a b"
  shows "12 * year a + month a \<le> 12 * year b + month b"
  using assms by (auto simp: date_le_def date_less_def not_less)

lemma date_le_first_of_month:
  assumes "1 \<le> month a" "month a \<le> 12" "1 \<le> month b" "month b \<le> 12"
    and "day a = 1" "1 \<le> day b"
  shows "date_le a b \<longleftrightarrow> 12 * year a + month a \<le> 12 * year b + month b"
  using assms by (auto simp: date_le_def date_less_def not_less)

lemma month_of_index:
  assumes "1 \<le> m" "m \<le> 12"
  shows "((12 * y + m - 1) div 12, (12 * y + m - 1) mod 12 + 1) = (y, m :: int)"
proof -
  have "(12 * y + m - 1) div 12 = y" using assms by presburger
  moreover have "(12 * y + m - 1) mod 12 + 1 = m" using assms by presburger
  ultimately show ?thesis by simp
qed

lemma month_key_inject:
  "(i div 12, i mod 12 + 1) = (j div 12, j mod 12 + 1) \<longleftrightarrow> i = (j :: int)"
  by (metis Pair_inject add_right_cancel mult_div_mod_eq)

lemma update_fresh:
  "k \<notin> fst ` set al \<Longrightarrow> AList.update k v al = al @ [(k, v)]"
  by (induction al) auto

lemma month_buckets_list:
  assumes "1 \<le> month e" "month e \<le> 12" "year e \<le> 9999"
    "\<not> (year e = 9999 \<and> month e = 12)" "1 \<le> day e"
  shows "1 \<le> year c \<Longrightarrow> 1 \<le> month c \<Longrightarrow> month c \<le> 12 \<Longrightarrow>
    (date_le c e \<longleftrightarrow> 12 * year c + month c \<le> 12 * year e + month e) \<Longrightarrow>
    (\<forall>i \<ge> 12 * year c + month c - 1. (i div 12, i mod 12 + 1) \<notin> fst ` set md) \<Longrightarrow>
    month_buckets c e md =
      Inr (md @ map (\<lambda>i. ((i div 12, i mod 12 + 1), \<lambda>k. 0))
        [12 * year c + month c - 1 .. 12 * year e + month e - 1])"
proof (induction "nat (12 * year e + month e + 1 - (12 * year c + month c))" arbitrary: c md)
  case 0
  then have "\<not> date_le c e" by simp
  moreover have "[12 * year c + month c - 1 .. 12 * year e + month e - 1] = []"
    using 0 by simp
  ultimately show ?case by simp
next
  case (Suc n)
  let ?i = "12 * year c + month c - 1"
  let ?j = "12 * year e + month e - 1"
  from Suc.hyps(2) have le: "?i \<le> ?j" by simp
  with Suc.prems have cont: "date_le c e" by simp
  have yc: "year c \<le> 9999" using le Suc.prems assms by auto
  define nxt where "nxt = (if month c = 12 then \<lparr>year = year c + 1, month = 1, day = 1\<rparr>
    else \<lparr>year = year c, month = month c + 1, day = 1\<rparr>)"
  have next_ok: "(if month c = 12 then date_new (year c + 1) 1 1
      else date_new (year c) (month c + 1) 1) = Inr nxt"
    using le Suc.prems assms yc
    by (auto simp: nxt_def date_new_def days_in_month_def)
  have nxt: "1 \<le> year nxt" "1 \<le> month nxt" "month nxt \<le> 12" "day nxt = 1"
    "12 * year nxt + month nxt = 12 * year c + month c + 1"
    using Suc.prems by (auto simp: nxt_def)
  have key: "(?i div 12, ?i mod 12 + 1) = (year c, month c)"
    using Suc.prems by (simp add: month_of_index)
  have fresh_c: "(year c, month c) \<notin> fst ` set md"
    using Suc.prems(5) key by (metis order_refl)
  let ?md = "md @ [((year c, month c), \<lambda>k. 0)]"
  have upd: "AList.update (year c, month c) (\<lambda>k. 0) md = ?md"
    using fresh_c by (rule update_fresh)
  have fresh': "\<forall>i \<ge> 12 * year nxt + month nxt - 1. (i div 12, i mod 12 + 1) \<notin> fst ` set ?md"
  proof (intro allI impI)
    fix i assume i: "12 * year nxt + month nxt - 1 \<le> i"
    then have "?i \<le> i" "i \<noteq> ?i" using nxt(5) by simp_all
    then have "(i div 12, i mod 12 + 1) \<notin> fst ` set md"
      and "(i div 12, i mod 12 + 1) \<noteq> (?i div 12, ?i mod 12 + 1)"
      using Suc.prems(5) by (simp_all only: month_key_inject not_False_eq_True)
    then show "(i div 12, i mod 12 + 1) \<notin> fst ` set ?md"
      using key by auto
  qed
  have n: "n = nat (12 * year e + month e + 1 - (12 * year nxt + month nxt))"
    using Suc.hyps(2) nxt(5) by simp
  have cmp': "date_le nxt e \<longleftrightarrow> 12 * year nxt + month nxt \<le> 12 * year e + month e"
    using nxt assms by (intro date_le_first_of_month) simp_all
  have "month_buckets c e md = month_buckets nxt e ?md"
    using cont next_ok upd by (subst month_buckets.simps) simp
  also have "\<dots> = Inr (?md @ map (\<lambda>i. ((i div 12, i mod 12 + 1), \<lambda>k. 0))
      [12 * year nxt + month nxt - 1 .. ?j])"
    using Suc.hyps(1) [OF n nxt(1-3) cmp' fresh'] .
  also have "\<dots> = Inr (md @ map (\<lambda>i. ((i div 12, i mod 12 + 1), \<lambda>k. 0)) [?i .. ?j])"
  proof -
    have "[?i .. ?j] = ?i # [12 * year nxt + month nxt - 1 .. ?j]"
      using le nxt(5) by (simp add: upto_rec1)
    then show ?thesis using key by simp
  qed
  finally show ?case .
qed

lemma in_period_both:
  "in_period (Some s) (Some e) x \<longleftrightarrow>
     \<not> (date_less (date x) s \<or> date_less e (date x))"
  by (simp add: in_period_def date_le_def)

lemma trend_loop_Cons:
  "trend_loop rates t s e (x # xs) md =
     (if \<not> in_period (Some s) (Some e) x then trend_loop rates t s e xs md
      else case amount_in rates t x of
             Inl err \<Rightarrow> Inl err
           | Inr a \<Rightarrow>
               (case map_of md (year (date x), month (date x)) of
                  None \<Rightarrow> Inl KeyError
                | Some bucket \<Rightarrow>
                    trend_loop rates t s e xs
                      (AList.update (year (date x), month (date x))
                         (bucket(category x := bucket (category x) + a)) md)))"
  by (simp add: in_period_both Let_def)

lemma update_present:
  "distinct (map fst al) \<Longrightarrow> map_of al key = Some b \<Longrightarrow>
     AList.update key (f b) al = map (\<lambda>(k, v). (k, if k = key then f v else v)) al"
proof (induction al)
  case Nil
  then show ?case by simp
next
  case (Cons p al)
  obtain k v where p: "p = (k, v)" by (cases p)
  show ?case
  proof (cases "k = key")
    case True
    with Cons.prems p have "v = b" and "key \<notin> fst ` set al" by auto
    then have "map (\<lambda>(k, v). (k, if k = key then f v else v)) al = al"
      by (induction al) auto
    with True p \<open>v = b\<close> show ?thesis by simp
  next
    case False
    with Cons p show ?thesis by simp
  qed
qed

lemma month_total_Cons:
  "month_total rates t s e (x # xs) ym k =
     (if in_period (Some s) (Some e) x \<and> (year (date x), month (date x)) = ym
         \<and> category x = k
      then (case amount_in rates t x of Inl err \<Rightarrow> 0 | Inr a \<Rightarrow> a) else 0)
     + month_total rates t s e xs ym k"
  by (simp add: month_total_def split: sum.splits)

lemma trend_loop_result:
  "distinct (map fst md) \<Longrightarrow> trend_loop rates t s e xs md = Inr md' \<Longrightarrow>
     md' = map (\<lambda>(ym, b). (ym, \<lambda>k. b k + month_total rates t s e xs ym k)) md"
proof (induction xs arbitrary: md)
  case Nil
  then show ?case by (simp add: month_total_def)
next
  case (Cons x xs)
  show ?case
  proof (cases "in_period (Some s) (Some e) x")
    case False
    with Cons.prems have "trend_loop rates t s e xs md = Inr md'"
      by (simp only: trend_loop_Cons if_True simp_thms)
    from Cons.IH [OF Cons.prems(1) this] False show ?thesis
      by (simp add: month_total_Cons)
  next
    case True
    let ?ym = "(year (date x), month (date x))"
    from True Cons.prems(2) obtain a bucket where a: "amount_in rates t x = Inr a"
      and bucket: "map_of md ?ym = Some bucket"
      and rest: "trend_loop rates t s e xs
        (AList.update ?ym (bucket(category x := bucket (category x) + a)) md) = Inr md'"
      by (auto simp only: trend_loop_Cons simp_thms if_False split: sum.splits option.splits)
    let ?f = "\<lambda>b. b(category x := b (category x) + a)"
    have upd: "AList.update ?ym (?f bucket) md =
        map (\<lambda>(k, v). (k, if k = ?ym then ?f v else v)) md"
      using Cons.prems(1) bucket by (rule update_present)
    have dist: "distinct (map fst (AList.update ?ym (?f bucket) md))"
      using Cons.prems(1) by (rule distinct_update)
    have "md' = map (\<lambda>(ym, b). (ym, \<lambda>k. b k + month_total rates t s e xs ym k))
        (AList.update ?ym (?f bucket) md)"
      using Cons.IH [OF dist rest] .
    also have "\<dots> = map (\<lambda>(ym, b). (ym, \<lambda>k. b k + month_total rates t s e (x # xs) ym k)) md"
      unfolding upd using True a
      by (auto simp: month_total_Cons fun_eq_iff)
    finally show ?thesis .
  qed
qed

lemma trend_loop_returns:
  "\<forall>x \<in> set xs. in_period (Some s) (Some e) x \<longrightarrow>
      (year (date x), month (date x)) \<in> fst ` set md \<Longrightarrow>
   returned (trend_loop rates t s e xs md) \<longleftrightarrow>
     (\<forall>x \<in> set xs. in_period (Some s) (Some e) x \<longrightarrow> returned (amount_in rates t x))"
proof (induction xs arbitrary: md)
  case Nil
  then show ?case by simp
next
  case (Cons x xs)
  show ?case
  proof (cases "in_period (Some s) (Some e) x")
    case False
    then show ?thesis using Cons by (simp only: trend_loop_Cons) simp
  next
    case True
    let ?ym = "(year (date x), month (date x))"
    from True Cons.prems have "?ym \<in> fst ` set md" by simp
    then have "map_of md ?ym \<noteq> None" by (simp only: map_of_eq_None_iff not_not)
    then obtain bucket where bucket: "map_of md ?ym = Some bucket" by blast
    show ?thesis
    proof (cases "amount_in rates t x")
      case (Inl err)
      with True show ?thesis by (simp only: trend_loop_Cons) simp
    next
      case (Inr a)
      let ?md = "AList.update ?ym (bucket(category x := bucket (category x) + a)) md"
      have keys: "fst ` set ?md = fst ` set md"
        using bucket by (auto simp: dom_update dest: map_of_SomeD intro: rev_image_eqI)
      have "returned (trend_loop rates t s e xs ?md) \<longleftrightarrow>
          (\<forall>x \<in> set xs. in_period (Some s) (Some e) x \<longrightarrow> returned (amount_in rates t x))"
        using Cons.prems by (intro Cons.IH) (simp add: keys)
      with True Inr bucket show ?thesis by (simp only: trend_loop_Cons) simp
    qed
  qed
qed

lemma sum_list_absent_key:
  "c \<notin> set ks \<Longrightarrow> sum_list (map (\<lambda>k. if c = k then v else 0) ks) = (0::real)"
  by (induction ks) auto

lemma sum_list_single_key:
  "distinct ks \<Longrightarrow> c \<in> set ks \<Longrightarrow>
     sum_list (map (\<lambda>k. if c = k then v else 0) ks) = (v::real)"
  by (induction ks) (auto simp: sum_list_absent_key)

lemma amounts_in_partition:
  "distinct ks \<Longrightarrow> \<forall>x \<in> set xs. f x \<in> set ks \<Longrightarrow>
     sum_list (map (\<lambda>k. sum_list (amounts_in rates t (filter (\<lambda>x. f x = k) xs))) ks) =
       sum_list (amounts_in rates t xs)"
proof (induction xs)
  case Nil
  then show ?case by simp
next
  case (Cons x xs)
  let ?g = "sum_list (amounts_in rates t [x])"
  have split: "sum_list (amounts_in rates t (filter (\<lambda>y. f y = k) (x # xs))) =
      (if f x = k then ?g else 0)
      + sum_list (amounts_in rates t (filter (\<lambda>y. f y = k) xs))" for k
    by (simp split: sum.splits)
  have one: "sum_list (map (\<lambda>k. if f x = k then ?g else 0) ks) = ?g"
    using Cons.prems by (intro sum_list_single_key) simp_all
  have "sum_list (amounts_in rates t (x # xs)) = ?g + sum_list (amounts_in rates t xs)"
    by (simp split: sum.splits)
  then show ?case
    using Cons by (simp only: split sum_list_addf one) simp
qed

lemma months_between_member:
  assumes "valid_date s" "valid_date e" "valid_date d" "date_le s d" "date_le d e"
  shows "(year d, month d) \<in> set (months_between s e)"
proof -
  from assms have m: "1 \<le> month s" "month s \<le> 12" "1 \<le> month d" "month d \<le> 12"
    "1 \<le> month e" "month e \<le> 12"
    by (simp_all add: valid_date_iff)
  let ?i = "12 * year d + month d - 1"
  have "12 * year s + month s \<le> 12 * year d + month d"
    using m assms(4) by (intro date_le_month_index) simp_all
  moreover have "12 * year d + month d \<le> 12 * year e + month e"
    using m assms(5) by (intro date_le_month_index) simp_all
  ultimately have "?i \<in> set [12 * year s + month s - 1 .. 12 * year e + month e - 1]"
    by simp
  moreover have "(?i div 12, ?i mod 12 + 1) = (year d, month d)"
    using m by (intro month_of_index)
  ultimately show ?thesis
    unfolding months_between_def by (metis (no_types, lifting) image_eqI set_map)
qed

lemma distinct_months_between: "distinct (months_between s e)"
  unfolding months_between_def
  by (simp add: distinct_map inj_on_def month_key_inject del: prod.inject)

lemma month_buckets_range:
  assumes "valid_date s" "valid_date e" "date_le s e" "\<not> (year e = 9999 \<and> month e = 12)"
  shows "month_buckets s e [] = Inr (map (\<lambda>ym. (ym, \<lambda>k. 0)) (months_between s e))"
proof -
  from assms have v: "1 \<le> year s" "1 \<le> month s" "month s \<le> 12"
    "1 \<le> month e" "month e \<le> 12" "year e \<le> 9999" "1 \<le> day e"
    by (simp_all add: valid_date_iff)
  have "12 * year s + month s \<le> 12 * year e + month e"
    using v assms(3) by (intro date_le_month_index) simp_all
  with assms(3) have cmp: "date_le s e \<longleftrightarrow> 12 * year s + month s \<le> 12 * year e + month e"
    by simp
  have "month_buckets s e [] =
      Inr ([] @ map (\<lambda>i. ((i div 12, i mod 12 + 1), \<lambda>k. 0))
        [12 * year s + month s - 1 .. 12 * year e + month e - 1])"
    using v(4,5,6) assms(4) v(7) v(1,2,3) cmp
    by (rule month_buckets_list) simp
  then show ?thesis by (simp add: months_between_def comp_def)
qed

lemma month_totals_sum:
  assumes "valid_date s" "valid_date e" "\<forall>x \<in> set xs. valid_date (date x)"
  shows "sum_list (map (\<lambda>ym. month_total rates t s e xs ym k) (months_between s e)) =
     category_total rates t (Some s) (Some e) xs k"
proof -
  let ?xs = "filter (\<lambda>x. in_period (Some s) (Some e) x \<and> category x = k) xs"
  have keys: "\<forall>x \<in> set ?xs. (year (date x), month (date x)) \<in> set (months_between s e)"
    using assms by (auto simp: in_period_def intro: months_between_member)
  have "month_total rates t s e xs ym k =
      sum_list (amounts_in rates t
        (filter (\<lambda>x. (year (date x), month (date x)) = ym) ?xs))" for ym
    by (simp add: month_total_def conj_commute conj_left_commute)
  then have "sum_list (map (\<lambda>ym. month_total rates t s e xs ym k) (months_between s e)) =
      sum_list (amounts_in rates t ?xs)"
    using amounts_in_partition [OF distinct_months_between keys, of rates t] by simp
  then show ?thesis by (simp add: category_total_def)
qed

text \<open>
  What the trend computation does for a range that ends before December 9999, the dates
  being those of \<open>datetime.date\<close> objects: it returns exactly when every expense within
  the range converts; \<open>monthly_data\<close> then has one bucket for each calendar month from the
  month of the start date through the month of the end date, in order, the bucket of a
  month holding for each category the total of the expenses of that month within the
  range, and the buckets of a category sum to its total over the range (the additions
  taken exactly).
\<close>

lemma spending_trend_months:
  assumes "valid_date s" "valid_date e" "date_le s e" "\<not> (year e = 9999 \<and> month e = 12)"
    and "\<forall>x \<in> set (expenses user). valid_date (date x)"
  shows "returned (generate_spending_trend rates user tc (Some s) (Some e)) \<longleftrightarrow>
      (\<forall>x \<in> set (expenses user). in_period (Some s) (Some e) x \<longrightarrow>
         returned (amount_in rates (target_or_default user tc) x))"
    and "generate_spending_trend rates user tc (Some s) (Some e) = Inr md \<Longrightarrow>
      md = map (\<lambda>ym. (ym, month_total rates (target_or_default user tc) s e (expenses user) ym))
        (months_between s e)"
    and "generate_spending_trend rates user tc (Some s) (Some e) = Inr md \<Longrightarrow>
      sum_list (map (\<lambda>(ym, bucket). bucket k) md) =
        category_total rates (target_or_default user tc) (Some s) (Some e) (expenses user) k"
proof -
  let ?t = "target_or_default user tc"
  let ?md0 = "map (\<lambda>ym. (ym, \<lambda>k. 0 :: real)) (months_between s e)"
  have trend: "generate_spending_trend rates user tc (Some s) (Some e) =
      trend_loop rates ?t s e (expenses user) ?md0"
    using month_buckets_range [OF assms(1-4)]
    by (simp add: generate_spending_trend_def Let_def)
  have keys0: "fst ` set ?md0 = set (months_between s e)"
    by (simp add: image_comp comp_def)
  have present: "\<forall>x \<in> set (expenses user). in_period (Some s) (Some e) x \<longrightarrow>
      (year (date x), month (date x)) \<in> fst ` set ?md0"
    unfolding keys0 using assms(1,2,5)
    by (auto simp: in_period_def intro: months_between_member)
  show "returned (generate_spending_trend rates user tc (Some s) (Some e)) \<longleftrightarrow>
      (\<forall>x \<in> set (expenses user). in_period (Some s) (Some e) x \<longrightarrow>
         returned (amount_in rates ?t x))"
    unfolding trend using present by (rule trend_loop_returns)
  have dist0: "distinct (map fst ?md0)"
    using distinct_months_between [of s e] by (simp add: comp_def)
  have result: "md = map (\<lambda>ym. (ym, month_total rates ?t s e (expenses user) ym))
      (months_between s e)"
    if "generate_spending_trend rates user tc (Some s) (Some e) = Inr md" for md
    using trend_loop_result [OF dist0, of rates ?t s e "expenses user" md] that
    unfolding trend by (simp add: comp_def)
  show "md = map (\<lambda>ym. (ym, month_total rates ?t s e (expenses user) ym))
      (months_between s e)"
    if "generate_spending_trend rates user tc (Some s) (Some e) = Inr md"
    using that by (rule result)
  show "sum_list (map (\<lambda>(ym, bucket). bucket k) md) =
      category_total rates ?t (Some s) (Some e) (expenses user) k"
    if "generate_spending_trend rates user tc (Some s) (Some e) = Inr md"
    using month_totals_sum [OF assms(1,2,5), of rates ?t k]
    unfolding result [OF that] by (simp add: comp_def)
qed

text \<open>
  In a range that ends in December 9999 the bucket loop reaches that month and then asks
  \<open>datetime.date\<close> for the first day of the year 10000.
\<close>

lemma month_buckets_december_9999:
  assumes "year e = 9999" "month e = 12" "1 \<le> day e"
  shows "1 \<le> year c \<Longrightarrow> 1 \<le> month c \<Longrightarrow> month c \<le> 12 \<Longrightarrow> 12 * year c + month c \<le> 120000 \<Longrightarrow>
    date_le c e \<Longrightarrow> month_buckets c e md = Inl DateOutOfRange"
proof (induction "nat (120000 - (12 * year c + month c))" arbitrary: c md)
  case 0
  then have "12 * year c + month c = 120000" by simp
  with "0.prems"(2,3) have "year c = 9999 \<and> month c = 12" by presburger
  with 0 show ?case
    by (subst month_buckets.simps) (simp add: date_new_def)
next
  case (Suc n)
  then have lt: "12 * year c + month c < 120000" by simp
  with Suc.prems have yc: "year c \<le> 9999" "\<not> (year c = 9999 \<and> month c = 12)" by auto
  define nxt where "nxt = (if month c = 12 then \<lparr>year = year c + 1, month = 1, day = 1\<rparr>
    else \<lparr>year = year c, month = month c + 1, day = 1\<rparr>)"
  have next_ok: "(if month c = 12 then date_new (year c + 1) 1 1
      else date_new (year c) (month c + 1) 1) = Inr nxt"
    using Suc.prems yc by (auto simp: nxt_def date_new_def days_in_month_def)
  have nxt: "1 \<le> year nxt" "1 \<le> month nxt" "month nxt \<le> 12" "day nxt = 1"
    "12 * year nxt + month nxt = 12 * year c + month c + 1"
    using Suc.prems by (auto simp: nxt_def)
  have "date_le nxt e \<longleftrightarrow> 12 * year nxt + month nxt \<le> 12 * year e + month e"
    using nxt assms by (intro date_le_first_of_month) simp_all
  then have le: "date_le nxt e" using nxt(5) lt assms by simp
  have n: "n = nat (120000 - (12 * year nxt + month nxt))"
    using Suc.hyps(2) nxt(5) by simp
  have "12 * year nxt + month nxt \<le> 120000" using nxt(5) lt by simp
  from Suc.hyps(1) [OF n nxt(1-3) this le]
  show ?case
    using Suc.prems(5) next_ok by (subst month_buckets.simps) simp
qed

lemma spending_trend_december_9999:
  assumes "valid_date s" "valid_date e" "date_le s e" "year e = 9999" "month e = 12"
  shows "generate_spending_trend rates user tc (Some s) (Some e) = Inl DateOutOfRange"
proof -
  from assms have v: "1 \<le> year s" "1 \<le> month s" "month s \<le> 12" "year s \<le> 9999" "1 \<le> day e"
    by (simp_all add: valid_date_iff)
  then have "12 * year s + month s \<le> 120000" by simp
  with assms v have "month_buckets s e [] = Inl DateOutOfRange"
    by (intro month_buckets_december_9999) simp_all
  then show ?thesis by (simp add: generate_spending_trend_def Let_def)
qed

text \<open>
  A run over three months: groceries dated before the range, a flight paid in dollars in
  February and the rent added in March.
\<close>

lemma spending_trend_example:
  "(case generate_spending_trend default_rates
      (fst (add_expense default_rates \<lparr>year = 2024, month = 3, day = 5\<rparr>
        (fst (add_expense default_rates \<lparr>year = 2024, month = 3, day = 5\<rparr>
          (fst (add_expense default_rates \<lparr>year = 2024, month = 3, day = 5\<rparr>
            (User_init ''u'' INR) 500 ''groceries''
            (Some \<lparr>year = 2024, month = 1, day = 15\<rparr>) None None False 0 None None))
          12 ''flight to Pune'' (Some \<lparr>year = 2024, month = 2, day = 10\<rparr>) None
          (Some USD) False 0 None None))
        300 ''rent'' None None None True 30 None None))
      (Some INR) (Some \<lparr>year = 2024, month = 1, day = 20\<rparr>)
      (Some \<lparr>year = 2024, month = 3, day = 31\<rparr>) of
      Inl err \<Rightarrow> None
    | Inr md \<Rightarrow> Some (map (\<lambda>(ym, bucket). (ym, map bucket [FOOD, HOUSING, TRAVEL])) md)) =
   Some [((2024, 1), [0, 0, 0]), ((2024, 2), [0, 0, 1000]), ((2024, 3), [0, 300, 0])]"
  by code_simp

text \<open>
  Claim C7 at a range inside December 9999, with one expense in the range: the start and
  end dates are dates \<open>datetime.date\<close> can hold, the start is not after the end, and the
  only calendar month of the range is December 9999; the claim gives one bucket for that
  month, holding the expense.  The code stores the bucket, then raises \<open>ValueError\<close>
  while constructing the first day of the following month, and produces nothing.
\<close>

theorem trend_raises_in_december_9999:
  "valid_date \<lparr>year = 9999, month = 12, day = 1\<rparr>
   \<and> valid_date \<lparr>year = 9999, month = 12, day = 31\<rparr>
   \<and> date_le \<lparr>year = 9999, month = 12, day = 1\<rparr> \<lparr>year = 9999, month = 12, day = 31\<rparr>
   \<and> months_between \<lparr>year = 9999, month = 12, day = 1\<rparr>
        \<lparr>year = 9999, month = 12, day = 31\<rparr> = [(9999, 12)]
   \<and> map date (expenses (fst (add_expense default_rates \<lparr>year = 2024, month = 5, day = 1\<rparr>
        (User_init ''u'' INR) 100 ''rent'' (Some \<lparr>year = 9999, month = 12, day = 15\<rparr>)
        None None False 0 None None))) = [\<lparr>year = 9999, month = 12, day = 15\<rparr>]
   \<and> generate_spending_trend default_rates
        (fst (add_expense default_rates \<lparr>year = 2024, month = 5, day = 1\<rparr>
           (User_init ''u'' INR) 100 ''rent'' (Some \<lparr>year = 9999, month = 12, day = 15\<rparr>)
           None None False 0 None None))
        None (Some \<lparr>year = 9999, month = 12, day = 1\<rparr>)
        (Some \<lparr>year = 9999, month = 12, day = 31\<rparr>) = Inl DateOutOfRange"
proof -
  have dates: "valid_date \<lparr>year = 9999, month = 12, day = 1\<rparr>"
    "valid_date \<lparr>year = 9999, month = 12, day = 31\<rparr>"
    "date_le \<lparr>year = 9999, month = 12, day = 1\<rparr> \<lparr>year = 9999, month = 12, day = 31\<rparr>"
    by (simp_all add: valid_date_def date_new_def days_in_month_def date_le_def date_less_def)
  have months: "months_between \<lparr>year = 9999, month = 12, day = 1\<rparr>
      \<lparr>year = 9999, month = 12, day = 31\<rparr> = [(9999, 12)]"
    by code_simp
  have ledger: "map date (expenses (fst (add_expense default_rates
      \<lparr>year = 2024, month = 5, day = 1\<rparr> (User_init ''u'' INR) 100 ''rent''
      (Some \<lparr>year = 9999, month = 12, day = 15\<rparr>) None None False 0 None None))) =
      [\<lparr>year = 9999, month = 12, day = 15\<rparr>]"
    by (simp add: add_expense_stores User_init_def initialize_default_tags_def)
  have raises: "generate_spending_trend default_rates user None
      (Some \<lparr>year = 9999, month = 12, day = 1\<rparr>)
      (Some \<lparr>year = 9999, month = 12, day = 31\<rparr>) = Inl DateOutOfRange" for user
    by (simp add: generate_spending_trend_def date_le_def date_less_def date_new_def)
  from dates months ledger raises show ?thesis by simp
qed

end
